theory Spec2Isabelle
  imports Main "HOL-Library.Sublist"
begin

section \<open>Python strings\<close>

text \<open>
  A Python \<open>str\<close> is modelled as a \<open>string\<close>, one \<open>char\<close> per code point, so the
  model covers the texts whose code points are below 256. \<open>len\<close> is \<open>length\<close> and the
  slice \<open>s[:n]\<close> is \<open>take n s\<close> (a slice never raises).
\<close>

definition in_range :: "char \<Rightarrow> char \<Rightarrow> char \<Rightarrow> bool" where
  \<comment> \<open>the character range \<open>lo-hi\<close> of a regular expression's character class\<close>
  "in_range lo hi c \<longleftrightarrow> (of_char lo :: nat) \<le> of_char c \<and> (of_char c :: nat) \<le> of_char hi"

definition py_isspace :: "char \<Rightarrow> bool" where
  \<comment> \<open>\<open>str.isspace\<close> on the code points below 256: TAB..CR, FS..US, space, NEL, NBSP\<close>
  "py_isspace c \<longleftrightarrow>
     (let n = (of_char c :: nat)
      in (9 \<le> n \<and> n \<le> 13) \<or> (28 \<le> n \<and> n \<le> 32) \<or> n = 133 \<or> n = 160)"

definition py_lower_char :: "char \<Rightarrow> char" where
  \<comment> \<open>\<open>str.lower\<close> on one code point below 256: A-Z and the Latin-1 capitals but U+00D7\<close>
  "py_lower_char c =
     (let n = (of_char c :: nat)
      in if (65 \<le> n \<and> n \<le> 90) \<or> (192 \<le> n \<and> n \<le> 222 \<and> n \<noteq> 215)
         then char_of (n + 32) else c)"

definition py_lower :: "string \<Rightarrow> string" where
  "py_lower s = map py_lower_char s"

fun words_from :: "string \<Rightarrow> string \<Rightarrow> string list" where
  \<comment> \<open>the scanner of \<open>str.split()\<close>; the first argument is the word being read\<close>
  "words_from cur [] = (if cur = [] then [] else [cur])"
| "words_from cur (c # cs) =
     (if py_isspace c
      then (if cur = [] then words_from [] cs else cur # words_from [] cs)
      else words_from (cur @ [c]) cs)"

definition py_split :: "string \<Rightarrow> string list" where
  \<comment> \<open>\<open>s.split()\<close>: the maximal runs of non-whitespace characters\<close>
  "py_split s = words_from [] s"

fun py_join :: "string \<Rightarrow> string list \<Rightarrow> string" where
  \<comment> \<open>\<open>sep.join(ws)\<close>\<close>
  "py_join sep [] = []"
| "py_join sep [w] = w"
| "py_join sep (w # v # ws) = w @ sep @ py_join sep (v # ws)"

definition py_strip :: "string \<Rightarrow> string" where
  \<comment> \<open>\<open>s.strip()\<close>\<close>
  "py_strip s = rev (dropWhile py_isspace (rev (dropWhile py_isspace s)))"

fun str_remove :: "string \<Rightarrow> string \<Rightarrow> string" where
  \<comment> \<open>\<open>s.replace(old, '')\<close>: every occurrence of \<open>old\<close>, found from the left and
      not overlapping, is removed; an empty \<open>old\<close> leaves \<open>s\<close> as it is\<close>
  "str_remove old [] = []"
| "str_remove old (c # cs) =
     (if old \<noteq> [] \<and> prefix old (c # cs) then str_remove old (drop (length old - 1) cs)
      else c # str_remove old cs)"

fun str_nat :: "nat \<Rightarrow> string" where
  \<comment> \<open>\<open>str(n)\<close> of a natural number, as an f-string writes it\<close>
  "str_nat n =
     (if n < 10 then [''0123456789'' ! n]
      else str_nat (n div 10) @ [''0123456789'' ! (n mod 10)])"

declare str_nat.simps [simp del]

definition truthy :: "string option \<Rightarrow> bool" where
  \<comment> \<open>the truth value of an optional string: \<open>None\<close> and \<open>''\<close> are false\<close>
  "truthy x \<longleftrightarrow> (case x of None \<Rightarrow> False | Some s \<Rightarrow> s \<noteq> [])"

definition or_else :: "string option \<Rightarrow> string \<Rightarrow> string" where
  \<comment> \<open>\<open>x or d\<close>\<close>
  "or_else x d = (case x of None \<Rightarrow> d | Some s \<Rightarrow> if s = [] then d else s)"

section \<open>The URL pattern and \<open>findall\<close>\<close>

text \<open>
  \<^verbatim>\<open>http[s]?://(?:[a-zA-Z]|[0-9]|[$-_@.&+]|[!*\\(\\),]|(?:%[0-9a-fA-F][0-9a-fA-F]))+\<close>
  (a raw string, so \<^verbatim>\<open>\\\<close> in the fourth class is an escaped backslash). In the third class
  \<^verbatim>\<open>$-_\<close> is a range, from \<open>$\<close> (36) to \<open>_\<close> (95).
\<close>

definition cls_alpha :: "char \<Rightarrow> bool" where
  "cls_alpha c \<longleftrightarrow> in_range CHR ''a'' CHR ''z'' c \<or> in_range CHR ''A'' CHR ''Z'' c"

definition cls_digit :: "char \<Rightarrow> bool" where
  "cls_digit c \<longleftrightarrow> in_range CHR ''0'' CHR ''9'' c"

definition cls_sym :: "char \<Rightarrow> bool" where
  "cls_sym c \<longleftrightarrow> in_range CHR ''$'' CHR ''_'' c \<or> c \<in> set ''@.&+''"

definition cls_punct :: "char \<Rightarrow> bool" where
  "cls_punct c \<longleftrightarrow> c \<in> set [CHR ''!'', CHR ''*'', CHR 0x5C, CHR ''('', CHR 0x5C, CHR '')'', CHR '','']"

definition cls_hex :: "char \<Rightarrow> bool" where
  "cls_hex c \<longleftrightarrow> in_range CHR ''0'' CHR ''9'' c \<or> in_range CHR ''a'' CHR ''f'' c
     \<or> in_range CHR ''A'' CHR ''F'' c"

fun url_units :: "string \<Rightarrow> string" where
  \<comment> \<open>the group under \<open>+\<close>, repeated greedily: each round takes the first alternative
      that matches, and the text matched by all rounds is returned\<close>
  "url_units [] = []"
| "url_units (c # cs) =
     (if cls_alpha c \<or> cls_digit c \<or> cls_sym c \<or> cls_punct c then c # url_units cs
      else (case cs of
              h1 # h2 # rest \<Rightarrow>
                if c = CHR ''%'' \<and> cls_hex h1 \<and> cls_hex h2 then c # h1 # h2 # url_units rest
                else []
            | _ \<Rightarrow> []))"

definition after_scheme :: "string \<Rightarrow> string \<Rightarrow> string option" where
  \<comment> \<open>\<open>://\<close> and at least one round of the group, after the scheme already matched\<close>
  "after_scheme scheme s =
     (if prefix ''://'' s
      then (let m = url_units (drop 3 s) in if m = [] then None else Some (scheme @ ''://'' @ m))
      else None)"

definition match_here :: "string \<Rightarrow> string option" where
  \<comment> \<open>the text the pattern matches at the start of \<open>s\<close>; \<open>[s]?\<close> first tries to take
      the \<open>s\<close>\<close>
  "match_here s =
     (if prefix ''http'' s
      then (let r = drop 4 s
            in if prefix ''s'' r
               then (case after_scheme ''https'' (drop 1 r) of
                       Some m \<Rightarrow> Some m
                     | None \<Rightarrow> after_scheme ''http'' r)
               else after_scheme ''http'' r)
      else None)"

fun findall :: "string \<Rightarrow> string list" where
  \<comment> \<open>\<open>url_pattern.findall(s)\<close>: the pattern has no capturing group, so the whole
      matches are returned; after a match \<open>m\<close> the scan goes on behind it, that is
      \<open>length m - 1\<close> characters further into the tail\<close>
  "findall [] = []"
| "findall (c # cs) =
     (case match_here (c # cs) of
        Some m \<Rightarrow> m # findall (drop (length m - 1) cs)
      | None \<Rightarrow> findall cs)"

section \<open>Exceptions, the outside world and the program state\<close>

text \<open>
  A raised \<open>Exception\<close> is a value \<open>Inl (Exn text)\<close>; every function of the two
  source files returns a result and the state it leaves. What the program does not
  decide itself (the web, the model servers, the spreadsheet, the messaging gateway,
  the clock, \<open>urlparse\<close>) is read from a \<open>world\<close>. A request to an outside service
  takes the number of requests made so far, so that a service may answer two equal
  requests differently.
\<close>

datatype exn = Exn string

type_synonym 'a result = "exn + 'a"

datatype json = JNull | JBool bool | JNum int | JStr string | JList "json list"
  | JDict "(string \<times> json) list"

datatype level = INFO | WARNING | ERROR

datatype backend = Web | HuggingFace | Ollama | OpenAI | Sheets | Twilio

record world =
  env_hf_key :: "string option"
    \<comment> \<open>\<open>os.environ.get('HUGGINGFACE_API_KEY')\<close>\<close>
  clock :: "nat \<Rightarrow> string \<times> string"
    \<comment> \<open>\<open>datetime.now()\<close> formatted as \<open>%Y-%m-%d\<close> and as \<open>%H:%M:%S\<close>\<close>
  http_get :: "nat \<Rightarrow> string \<Rightarrow> (nat \<times> string option) result"
    \<comment> \<open>\<open>requests.get\<close> of a page: the status code, and the text of the first
        \<open>title\<close> element that BeautifulSoup finds, if any\<close>
  hf_post :: "nat \<Rightarrow> string \<Rightarrow> (nat \<times> json result) result"
    \<comment> \<open>\<open>requests.post\<close> to the hosted model with the inputs: the status code and
        what \<open>response.json()\<close> gives\<close>
  ollama_post :: "nat \<Rightarrow> string \<Rightarrow> (nat \<times> json result) result"
    \<comment> \<open>\<open>requests.post\<close> to the local model server with the prompt\<close>
  openai_chat :: "nat \<Rightarrow> string \<Rightarrow> string option list result"
    \<comment> \<open>\<open>openai.ChatCompletion.create\<close> with the user prompt: the message content of
        each choice, \<open>None\<close> for a null content\<close>
  urlparse_netloc :: "string \<Rightarrow> string result"
    \<comment> \<open>\<open>urlparse(url).netloc\<close> of the standard library, which may raise ValueError\<close>
  append_row :: "nat \<Rightarrow> string list \<Rightarrow> string option"
    \<comment> \<open>\<open>sheet.append_row(row)\<close>: \<open>Some e\<close> when it raises \<open>e\<close>\<close>
  twilio_create :: "nat \<Rightarrow> string \<Rightarrow> string \<Rightarrow> string option"
    \<comment> \<open>\<open>twilio_client.messages.create\<close> with \<open>to\<close> and \<open>body\<close>: \<open>Some e\<close> when it
        raises \<open>e\<close>\<close>

record state =
  sheet :: "string list list option"
    \<comment> \<open>\<open>self.sheet\<close>: \<open>None\<close> after a failed setup, else the rows appended so far\<close>
  logs :: "(level \<times> string) list"
  sent :: "(string \<times> string) list"
    \<comment> \<open>the messages the gateway accepted: addressee and body\<close>
  calls :: "backend list"
    \<comment> \<open>the requests made to outside services, oldest first\<close>

type_synonym 'a prog = "state \<Rightarrow> 'a result \<times> state"

definition ret :: "'a \<Rightarrow> 'a prog" where
  "ret v st = (Inr v, st)"

definition lift :: "'a result \<Rightarrow> 'a prog" where
  \<comment> \<open>an expression that may raise and touches no state\<close>
  "lift r st = (r, st)"

definition bind :: "'a prog \<Rightarrow> ('a \<Rightarrow> 'b prog) \<Rightarrow> 'b prog" where
  \<comment> \<open>sequencing: an exception skips the rest\<close>
  "bind m f st = (case m st of (Inl e, st') \<Rightarrow> (Inl e, st') | (Inr v, st') \<Rightarrow> f v st')"

definition try_except :: "'a prog \<Rightarrow> (string \<Rightarrow> 'a prog) \<Rightarrow> 'a prog" where
  \<comment> \<open>\<open>try: m  except Exception as e: h e\<close>\<close>
  "try_except m h st =
     (case m st of (Inl (Exn e), st') \<Rightarrow> h e st' | (Inr v, st') \<Rightarrow> (Inr v, st'))"

definition logger :: "level \<Rightarrow> string \<Rightarrow> unit prog" where
  "logger l msg st = (Inr (), st\<lparr>logs := logs st @ [(l, msg)]\<rparr>)"

definition request :: "backend \<Rightarrow> (nat \<Rightarrow> 'a result) \<Rightarrow> 'a prog" where
  \<comment> \<open>one request to an outside service, recorded in \<open>calls\<close>\<close>
  "request b f st = (f (length (calls st)), st\<lparr>calls := calls st @ [b]\<rparr>)"

definition present :: "string option \<Rightarrow> string option" where
  \<comment> \<open>the value under \<open>if url:\<close>, where \<open>None\<close> and \<open>''\<close> are both false\<close>
  "present url = (case url of None \<Rightarrow> None | Some u \<Rightarrow> if u = [] then None else Some u)"

definition json_get :: "json \<Rightarrow> string \<Rightarrow> json \<Rightarrow> json result" where
  \<comment> \<open>\<open>x.get(key, default)\<close>: only a dict has \<open>get\<close>\<close>
  "json_get x k d =
     (case x of
        JDict kvs \<Rightarrow> Inr (case map_of kvs k of Some v \<Rightarrow> v | None \<Rightarrow> d)
      | _ \<Rightarrow> Inl (Exn ''object has no attribute get''))"

definition json_strip :: "json \<Rightarrow> string result" where
  \<comment> \<open>\<open>v.strip()\<close>: only a string has \<open>strip\<close>\<close>
  "json_strip v =
     (case v of JStr s \<Rightarrow> Inr (py_strip s) | _ \<Rightarrow> Inl (Exn ''object has no attribute strip''))"

section \<open>The title fetcher\<close>

definition extract_page_title :: "world \<Rightarrow> string \<Rightarrow> string option prog" where
  "extract_page_title w url =
     try_except
       (bind (request Web (\<lambda>t. http_get w t url)) (\<lambda>(status_code, title).
          if status_code = 200
          then (case title of Some t \<Rightarrow> ret (Some (take 100 (py_strip t))) | None \<Rightarrow> ret None)
          else ret None))
       (\<lambda>e. bind (logger ERROR (''Error extracting title from '' @ url @ '': '' @ e))
               (\<lambda>_. ret None))"

section \<open>The local fallback (app.py)\<close>

definition common_words :: "string list" where
  "common_words = [''the'', ''and'', ''or'', ''but'', ''in'', ''on'', ''at'', ''to'', ''for'',
     ''of'', ''with'', ''by'', ''is'', ''are'', ''was'', ''were'', ''a'', ''an'']"

definition domain_words :: "string \<Rightarrow> string" where
  \<comment> \<open>\<open>domain.replace('www.', '').replace('.com', '').replace('.org', '').replace('.net', '')\<close>\<close>
  "domain_words domain =
     str_remove ''.net'' (str_remove ''.org'' (str_remove ''.com'' (str_remove ''www.'' domain)))"

definition summary_keywords :: "string \<Rightarrow> string list" where
  \<comment> \<open>\<open>[word for word in content.lower().split()
         if len(word) > 3 and word not in common_words][:4]\<close>\<close>
  "summary_keywords content =
     take 4 (filter (\<lambda>word. length word > 3 \<and> word \<notin> set common_words)
                    (py_split (py_lower content)))"

definition generate_simple_summary :: "world \<Rightarrow> string \<Rightarrow> string option \<Rightarrow> string prog" where
  "generate_simple_summary w content url =
     try_except
       (case present url of
          Some u \<Rightarrow>
            bind (lift (urlparse_netloc w u))
              (\<lambda>domain. ret (domain_words domain @ '' link shared''))
        | None \<Rightarrow>
            ret (if summary_keywords content \<noteq> [] then py_join '' '' (summary_keywords content)
                 else ''message received''))
       (\<lambda>e. bind (logger ERROR (''Error in simple summary: '' @ e)) (\<lambda>_. ret ''content logged''))"

section \<open>The hosted model (app.py)\<close>

definition first_words :: "string \<Rightarrow> string" where
  \<comment> \<open>\<open>' '.join(summary.split()[:5])\<close>\<close>
  "first_words summary = py_join '' '' (take 5 (py_split summary))"

definition hf_read_summary :: "json \<Rightarrow> string option prog" where
  \<comment> \<open>the block under \<open>if isinstance(result, list) and len(result) > 0:\<close>, written
      twice in the source; \<open>Some\<close> is its \<open>return\<close>, \<open>None\<close> is falling out of it\<close>
  "hf_read_summary result =
     (case result of
        JList (x # xs) \<Rightarrow>
          bind (lift (json_get x ''summary_text'' (JStr ''''))) (\<lambda>v.
          bind (lift (json_strip v)) (\<lambda>summary.
            ret (Some (if take 5 (py_split summary) \<noteq> [] then first_words summary
                       else ''Summary generated''))))
      | _ \<Rightarrow> ret None)"

definition hf_text_to_summarize :: "world \<Rightarrow> string \<Rightarrow> string option \<Rightarrow> string prog" where
  "hf_text_to_summarize w content url =
     (case present url of
        Some u \<Rightarrow>
          bind (extract_page_title w u) (\<lambda>page_title.
            ret (''Website: '' @ u @ ''. Title: '' @ or_else page_title ''Unknown''
                 @ ''. Content: '' @ take 300 content))
      | None \<Rightarrow> ret (take 500 content))"

definition hf_try :: "world \<Rightarrow> string \<Rightarrow> string option \<Rightarrow> string option prog" where
  \<comment> \<open>the body of the \<open>try\<close>: \<open>Some\<close> is a \<open>return\<close> inside it, \<open>None\<close> is reaching its
      end; \<open>time.sleep(10)\<close> changes nothing here\<close>
  "hf_try w content url =
     bind (if truthy (env_hf_key w) then ret ()
           else logger WARNING ''HUGGINGFACE_API_KEY not found, trying without auth'') (\<lambda>_.
     bind (hf_text_to_summarize w content url) (\<lambda>text_to_summarize.
     bind (request HuggingFace (\<lambda>t. hf_post w t text_to_summarize)) (\<lambda>(status_code, body).
     bind (if status_code = 200
           then bind (lift body) (\<lambda>result.
                bind (hf_read_summary result) (\<lambda>r. ret (r, status_code)))
           else if status_code = 503
           then bind (logger INFO ''HuggingFace model loading, retrying in 10 seconds...'') (\<lambda>_.
                bind (request HuggingFace (\<lambda>t. hf_post w t text_to_summarize))
                  (\<lambda>(status_code2, body2).
                     if status_code2 = 200
                     then bind (lift body2) (\<lambda>result.
                          bind (hf_read_summary result) (\<lambda>r. ret (r, status_code2)))
                     else ret (None, status_code2)))
           else ret (None, status_code)) (\<lambda>(r, last_status).
       case r of
         Some summary \<Rightarrow> ret (Some summary)
       | None \<Rightarrow>
           bind (logger WARNING (''HuggingFace API returned status '' @ str_nat last_status))
             (\<lambda>_. ret None)))))"

definition generate_summary_with_huggingface ::
  "world \<Rightarrow> string \<Rightarrow> string option \<Rightarrow> string prog" where
  "generate_summary_with_huggingface w content url =
     bind (try_except (hf_try w content url)
             (\<lambda>e. bind (logger ERROR (''Error with HuggingFace API: '' @ e)) (\<lambda>_. ret None)))
       (\<lambda>r. case r of
               Some summary \<Rightarrow> ret summary
             | None \<Rightarrow> generate_simple_summary w content url)"

section \<open>The chat-completion model (both files) and the local model server (main.py)\<close>

definition first_choice :: "string option list \<Rightarrow> string result" where
  \<comment> \<open>\<open>response.choices[0].message.content.strip()\<close>\<close>
  "first_choice choices =
     (case choices of
        [] \<Rightarrow> Inl (Exn ''list index out of range'')
      | None # _ \<Rightarrow> Inl (Exn ''object has no attribute strip'')
      | Some c # _ \<Rightarrow> Inr (py_strip c))"

definition generate_summary_with_openai :: "world \<Rightarrow> string \<Rightarrow> string option \<Rightarrow> string prog" where
  "generate_summary_with_openai w content url =
     try_except
       (bind (case present url of
                Some u \<Rightarrow>
                  bind (extract_page_title w u) (\<lambda>page_title.
                    ret (''Summarize this URL in exactly 4-5 words: '' @ u @ '' - ''
                         @ or_else page_title ''''))
              | None \<Rightarrow>
                  ret (''Summarize this message in exactly 4-5 words: '' @ take 200 content))
          (\<lambda>prompt.
        bind (request OpenAI (\<lambda>t. openai_chat w t prompt)) (\<lambda>choices.
        bind (lift (first_choice choices)) (\<lambda>summary.
          ret (first_words summary)))))
       (\<lambda>e. bind (logger ERROR (''Error with OpenAI API: '' @ e))
               (\<lambda>_. ret ''Summary unavailable''))"

definition ollama_try :: "world \<Rightarrow> string \<Rightarrow> string option \<Rightarrow> string option prog" where
  \<comment> \<open>the body of the \<open>try\<close>: \<open>Some\<close> is its \<open>return\<close>, \<open>None\<close> is reaching its end\<close>
  "ollama_try w content url =
     bind (case present url of
             Some u \<Rightarrow>
               bind (extract_page_title w u) (\<lambda>page_title.
                 ret (''Summarize this URL and content in exactly 4-5 words: '' @ u @ '' - ''
                      @ or_else page_title '''' @ '' - '' @ take 200 content))
           | None \<Rightarrow>
               ret (''Summarize this message in exactly 4-5 words: '' @ take 200 content))
       (\<lambda>prompt.
     bind (request Ollama (\<lambda>t. ollama_post w t prompt)) (\<lambda>(status_code, body).
       if status_code = 200
       then bind (lift body) (\<lambda>result.
            bind (lift (json_get result ''response'' (JStr ''''))) (\<lambda>v.
            bind (lift (json_strip v)) (\<lambda>summary.
              ret (Some (first_words summary)))))
       else ret None))"

definition generate_summary_with_ollama :: "world \<Rightarrow> string \<Rightarrow> string option \<Rightarrow> string prog" where
  "generate_summary_with_ollama w content url =
     bind (try_except (ollama_try w content url)
             (\<lambda>e. bind (logger ERROR (''Error with Ollama API: '' @ e)) (\<lambda>_. ret None)))
       (\<lambda>r. case r of
               Some summary \<Rightarrow> ret summary
             | None \<Rightarrow> generate_summary_with_openai w content url)"

section \<open>The log sink\<close>

definition build_row ::
  "string \<times> string \<Rightarrow> string \<Rightarrow> string \<Rightarrow> string option \<Rightarrow> string \<Rightarrow> string \<Rightarrow> string list" where
  \<comment> \<open>the list \<open>row\<close> of \<open>log_to_spreadsheet\<close>\<close>
  "build_row now message_type content url summary sender =
     [fst now, snd now, message_type, take 500 content, or_else url '''', summary, sender]"

definition row_kind :: "string list \<Rightarrow> string" where
  "row_kind row = row ! 2"

definition row_content :: "string list \<Rightarrow> string" where
  "row_content row = row ! 3"

definition row_url :: "string list \<Rightarrow> string" where
  "row_url row = row ! 4"

definition sheet_append_row :: "world \<Rightarrow> string list \<Rightarrow> unit prog" where
  \<comment> \<open>\<open>self.sheet.append_row(row)\<close>: the request either raises or adds the row\<close>
  "sheet_append_row w row st =
     (case append_row w (length (calls st)) row of
        Some e \<Rightarrow> (Inl (Exn e), st\<lparr>calls := calls st @ [Sheets]\<rparr>)
      | None \<Rightarrow>
          (Inr (), st\<lparr>sheet := map_option (\<lambda>rows. rows @ [row]) (sheet st),
                       calls := calls st @ [Sheets]\<rparr>))"

definition log_to_spreadsheet ::
  "world \<Rightarrow> string \<Rightarrow> string \<Rightarrow> string option \<Rightarrow> string \<Rightarrow> string \<Rightarrow> unit prog" where
  "log_to_spreadsheet w message_type content url summary sender st =
     (case sheet st of
        None \<Rightarrow> logger ERROR ''Google Sheets not configured'' st
      | Some _ \<Rightarrow>
          try_except
            (bind (sheet_append_row w
                     (build_row (clock w (length (calls st))) message_type content url
                        summary sender))
               (\<lambda>_. logger INFO (''Logged to spreadsheet: '' @ message_type @ '' - '' @ summary)))
            (\<lambda>e. logger ERROR (''Error logging to spreadsheet: '' @ e)) st)"

section \<open>The message processor, the reply and the webhook\<close>

definition check_mark :: string where
  \<comment> \<open>the first character of both reply literals, U+2705; it does not fit one
      \<open>char\<close> and is written as its three UTF-8 bytes\<close>
  "check_mark = [CHR 0xE2, CHR 0x9C, CHR 0x85]"

fun log_links ::
  "(world \<Rightarrow> string \<Rightarrow> string option \<Rightarrow> string prog) \<Rightarrow> world \<Rightarrow> string \<Rightarrow> string
     \<Rightarrow> string list \<Rightarrow> unit prog" where
  \<comment> \<open>the loop \<open>for url in urls\<close>\<close>
  "log_links summarize w message_body sender_number [] = ret ()"
| "log_links summarize w message_body sender_number (url # urls) =
     bind (summarize w message_body (Some url)) (\<lambda>summary.
     bind (log_to_spreadsheet w ''Link'' message_body (Some url) summary sender_number) (\<lambda>_.
       log_links summarize w message_body sender_number urls))"

definition process_message ::
  "(world \<Rightarrow> string \<Rightarrow> string option \<Rightarrow> string prog) \<Rightarrow> world \<Rightarrow> string \<Rightarrow> string
     \<Rightarrow> string prog" where
  \<comment> \<open>\<open>process_message\<close> is the same text in both files but for the summarizer it calls,
      which is the first argument here\<close>
  "process_message summarize w message_body sender_number =
     bind (logger INFO (''Processing message from '' @ sender_number @ '': '' @ message_body))
       (\<lambda>_.
     if findall message_body \<noteq> []
     then bind (log_links summarize w message_body sender_number (findall message_body)) (\<lambda>_.
            ret (check_mark @ '' Logged '' @ str_nat (length (findall message_body))
                 @ '' link(s) to your spreadsheet!''))
     else bind (summarize w message_body None) (\<lambda>summary.
          bind (log_to_spreadsheet w ''Message'' message_body None summary sender_number) (\<lambda>_.
            ret (check_mark @ '' Message logged to your spreadsheet!''))))"

definition app_process_message :: "world \<Rightarrow> string \<Rightarrow> string \<Rightarrow> string prog" where
  "app_process_message = process_message generate_summary_with_huggingface"

definition main_process_message :: "world \<Rightarrow> string \<Rightarrow> string \<Rightarrow> string prog" where
  "main_process_message = process_message generate_summary_with_ollama"

definition twilio_messages_create :: "world \<Rightarrow> string \<Rightarrow> string \<Rightarrow> unit prog" where
  \<comment> \<open>\<open>self.twilio_client.messages.create(body, from_, to)\<close>: the request either raises
      or the gateway takes the message\<close>
  "twilio_messages_create w to body st =
     (case twilio_create w (length (calls st)) to body of
        Some e \<Rightarrow> (Inl (Exn e), st\<lparr>calls := calls st @ [Twilio]\<rparr>)
      | None \<Rightarrow>
          (Inr (), st\<lparr>sent := sent st @ [(to, body)], calls := calls st @ [Twilio]\<rparr>))"

definition send_whatsapp_message :: "world \<Rightarrow> string \<Rightarrow> string \<Rightarrow> unit prog" where
  "send_whatsapp_message w to_number message =
     try_except
       (bind (twilio_messages_create w (''whatsapp:'' @ to_number) message)
          (\<lambda>_. logger INFO (''Sent message to '' @ to_number)))
       (\<lambda>e. logger ERROR (''Error sending message: '' @ e))"

definition form_get :: "(string \<rightharpoonup> string) \<Rightarrow> string \<Rightarrow> string \<Rightarrow> string" where
  \<comment> \<open>\<open>request.form.get(key, default)\<close>\<close>
  "form_get form k d = (case form k of Some v \<Rightarrow> v | None \<Rightarrow> d)"

definition webhook ::
  "(world \<Rightarrow> string \<Rightarrow> string \<Rightarrow> string prog) \<Rightarrow> world \<Rightarrow> (string \<rightharpoonup> string)
     \<Rightarrow> ((string \<times> string) list \<times> nat) prog" where
  \<comment> \<open>the handler returns the JSON object and the HTTP status; the first argument is the
      file's \<open>bot.process_message\<close>\<close>
  "webhook process w form =
     try_except
       (bind (if form_get form ''Body'' '''' \<noteq> []
                 \<and> str_remove ''whatsapp:'' (form_get form ''From'' '''') \<noteq> []
              then bind (process w (form_get form ''Body'' '''')
                           (str_remove ''whatsapp:'' (form_get form ''From'' '''')))
                     (\<lambda>response_text.
                        send_whatsapp_message w
                          (str_remove ''whatsapp:'' (form_get form ''From'' '''')) response_text)
              else ret ())
          (\<lambda>_. ret ([(''status'', ''success'')], 200)))
       (\<lambda>e. bind (logger ERROR (''Webhook error: '' @ e))
               (\<lambda>_. ret ([(''status'', ''error''), (''message'', e)], 500)))"

definition app_webhook ::
  "world \<Rightarrow> (string \<rightharpoonup> string) \<Rightarrow> ((string \<times> string) list \<times> nat) prog" where
  "app_webhook = webhook app_process_message"

definition main_webhook ::
  "world \<Rightarrow> (string \<rightharpoonup> string) \<Rightarrow> ((string \<times> string) list \<times> nat) prog" where
  "main_webhook = webhook main_process_message"

section \<open>Answers from which the code reads no summary\<close>




section \<open>The words of the specification, for comparison\<close>

definition url_char :: "char \<Rightarrow> bool" where
  \<comment> \<open>the characters a URL goes on with: \<open>!\<close>, the codes 36..95 from \<open>$\<close> to \<open>_\<close>
      (which hold the digits, the capitals and \<^verbatim>\<open>% & ' ( ) * + , - . / : ; < = > ? @ [ \ ] ^\<close>)
      and the small letters\<close>
  "url_char c \<longleftrightarrow> c = CHR ''!'' \<or> in_range CHR ''$'' CHR ''_'' c \<or> in_range CHR ''a'' CHR ''z'' c"

definition claimed_symbol :: "char \<Rightarrow> bool" where
  \<comment> \<open>the symbols as the specification lists them, the hyphen read as a symbol\<close>
  "claimed_symbol c \<longleftrightarrow>
     c \<in> set [CHR ''$'', CHR ''-'', CHR ''_'', CHR ''@'', CHR ''.'', CHR ''&'', CHR ''+'',
               CHR ''!'', CHR ''*'', CHR 0x27, CHR ''('', CHR '')'', CHR '','']"

fun claimed_run :: "string \<Rightarrow> bool" where
  \<comment> \<open>a sequence of letters, digits, listed symbols and \<open>%XX\<close> escapes\<close>
  "claimed_run [] = True"
| "claimed_run (c # cs) =
     (if cls_alpha c \<or> cls_digit c \<or> claimed_symbol c then claimed_run cs
      else (case cs of
              h1 # h2 # rest \<Rightarrow> c = CHR ''%'' \<and> cls_hex h1 \<and> cls_hex h2 \<and> claimed_run rest
            | _ \<Rightarrow> False))"

definition claimed_url :: "string \<Rightarrow> bool" where
  \<comment> \<open>a text that matches the pattern as the specification words it\<close>
  "claimed_url u \<longleftrightarrow>
     (prefix ''https://'' u \<and> drop 8 u \<noteq> [] \<and> claimed_run (drop 8 u))
     \<or> (prefix ''http://'' u \<and> drop 7 u \<noteq> [] \<and> claimed_run (drop 7 u))"



section \<open>Invariants of a computation, and example worlds\<close>

definition preserves :: "(state \<Rightarrow> bool) \<Rightarrow> 'a prog \<Rightarrow> bool" where
  "preserves I m \<longleftrightarrow> (\<forall>st. I st \<longrightarrow> I (snd (m st)))"

definition returns :: "'a prog \<Rightarrow> bool" where
  \<comment> \<open>the computation returns a value from every state: it raises nothing\<close>
  "returns m \<longleftrightarrow> (\<forall>st. \<exists>v st'. m st = (Inr v, st'))"

definition yields :: "('a \<Rightarrow> bool) \<Rightarrow> 'a prog \<Rightarrow> bool" where
  \<comment> \<open>every value the computation returns satisfies \<open>P\<close>\<close>
  "yields P m \<longleftrightarrow> (\<forall>st v st'. m st = (Inr v, st') \<longrightarrow> P v)"

definition demo_netloc :: "string \<Rightarrow> string result" where
  \<comment> \<open>the network location of the example worlds: the text between \<open>//\<close> and the next
      \<open>/\<close>, \<open>?\<close> or \<open>#\<close>, which is what \<open>urlparse\<close> gives for a plain http URL\<close>
  "demo_netloc url =
     Inr (takeWhile (\<lambda>c. c \<notin> set ''/?#'') (drop 2 (dropWhile (\<lambda>c. c \<noteq> CHR ''/'') url)))"

definition offline_world :: world where
  \<comment> \<open>every remote model and the web are unreachable; the spreadsheet and the gateway
      accept what they are sent\<close>
  "offline_world =
     \<lparr>env_hf_key = None,
      clock = (\<lambda>_. (''2024-05-01'', ''12:00:00'')),
      http_get = (\<lambda>_ _. Inl (Exn ''connection refused'')),
      hf_post = (\<lambda>_ _. Inl (Exn ''connection refused'')),
      ollama_post = (\<lambda>_ _. Inl (Exn ''connection refused'')),
      openai_chat = (\<lambda>_ _. Inl (Exn ''connection refused'')),
      urlparse_netloc = demo_netloc,
      append_row = (\<lambda>_ _. None),
      twilio_create = (\<lambda>_ _ _. None)\<rparr>"


definition silent_models_world :: world where
  \<comment> \<open>the local model server answers 200 with an empty response, and the
      chat-completion model answers with a blank content\<close>
  "silent_models_world =
     offline_world\<lparr>ollama_post := (\<lambda>_ _. Inr (200, Inr (JDict [(''response'', JStr '''')]))),
                    openai_chat := (\<lambda>_ _. Inr [Some '' ''])\<rparr>"

definition broken_sheet_world :: world where
  \<comment> \<open>as \<open>offline_world\<close>, but every append to the spreadsheet raises\<close>
  "broken_sheet_world = offline_world\<lparr>append_row := (\<lambda>_ _. Some ''transport error'')\<rparr>"



definition init_state :: state where
  "init_state = \<lparr>sheet = Some [], logs = [], sent = [], calls = []\<rparr>"

definition no_sheet_state :: state where
  "no_sheet_state = \<lparr>sheet = None, logs = [], sent = [], calls = []\<rparr>"

section \<open>Sequencing, exceptions and invariants\<close>

lemma returns_ret: "returns (ret v)"
  by (simp add: returns_def ret_def)

lemma returns_logger: "returns (logger l msg)"
  by (simp add: returns_def logger_def)

lemma returns_bind: "returns m \<Longrightarrow> (\<And>v. returns (f v)) \<Longrightarrow> returns (bind m f)"
  unfolding returns_def bind_def
proof
  fix st
  assume m: "\<forall>st. \<exists>v st'. m st = (Inr v, st')" and f: "\<And>v. \<forall>st. \<exists>va st'. f v st = (Inr va, st')"
  from m obtain v st1 where 1: "m st = (Inr v, st1)" by blast
  from f obtain v2 st2 where 2: "f v st1 = (Inr v2, st2)" by blast
  show "\<exists>v st'. (case m st of (Inl e, st') \<Rightarrow> (Inl e, st') | (Inr v, st') \<Rightarrow> f v st') = (Inr v, st')"
    using 1 2 by simp
qed

lemma returns_try_except: "(\<And>e. returns (h e)) \<Longrightarrow> returns (try_except m h)"
  unfolding returns_def try_except_def
proof
  fix st
  assume h: "\<And>e. \<forall>st. \<exists>v st'. h e st = (Inr v, st')"
  obtain r st1 where 1: "m st = (r, st1)" by (cases "m st")
  show "\<exists>v st'. (case m st of (Inl (Exn e), st') \<Rightarrow> h e st' | (Inr v, st') \<Rightarrow> (Inr v, st')) = (Inr v, st')"
  proof (cases r)
    case (Inl x)
    obtain e where "x = Exn e" by (cases x)
    with Inl 1 h[of e] show ?thesis by simp
  next
    case (Inr v)
    with 1 show ?thesis by simp
  qed
qed

lemma returns_generate_simple_summary: "returns (generate_simple_summary w content url)"
  unfolding generate_simple_summary_def
  by (intro returns_try_except returns_bind returns_logger returns_ret)

lemma returns_generate_summary_with_openai: "returns (generate_summary_with_openai w content url)"
  unfolding generate_summary_with_openai_def
  by (intro returns_try_except returns_bind returns_logger returns_ret)

lemma returns_option_case: "returns a \<Longrightarrow> (\<And>s. returns (b s)) \<Longrightarrow> returns (case r of None \<Rightarrow> a | Some s \<Rightarrow> b s)"
  by (cases r) simp_all

lemma returns_generate_summary_with_huggingface:
  "returns (generate_summary_with_huggingface w content url)"
  unfolding generate_summary_with_huggingface_def
  by (intro returns_bind returns_try_except returns_logger returns_ret returns_option_case
        returns_generate_simple_summary)

lemma returns_generate_summary_with_ollama:
  "returns (generate_summary_with_ollama w content url)"
  unfolding generate_summary_with_ollama_def
  by (intro returns_bind returns_try_except returns_logger returns_ret returns_option_case
        returns_generate_summary_with_openai)

lemma returns_log_to_spreadsheet: "returns (log_to_spreadsheet w mt content url summary sender)"
  unfolding returns_def
proof
  fix st
  show "\<exists>v st'. log_to_spreadsheet w mt content url summary sender st = (Inr v, st')"
  proof (cases "sheet st")
    case None
    then show ?thesis by (simp add: log_to_spreadsheet_def logger_def)
  next
    case (Some rows)
    have "returns (try_except
            (bind (sheet_append_row w
                     (build_row (clock w (length (calls st))) mt content url summary sender))
               (\<lambda>_. logger INFO (''Logged to spreadsheet: '' @ mt @ '' - '' @ summary)))
            (\<lambda>e. logger ERROR (''Error logging to spreadsheet: '' @ e)))"
      by (intro returns_try_except returns_logger)
    then show ?thesis using Some by (simp add: log_to_spreadsheet_def returns_def)
  qed
qed

lemma preserves_ret: "preserves I (ret v)"
  by (simp add: preserves_def ret_def)

lemma preserves_lift: "preserves I (lift r)"
  by (simp add: preserves_def lift_def)

lemma preserves_logger:
  "(\<And>st x. I st \<Longrightarrow> I (st\<lparr>logs := x\<rparr>)) \<Longrightarrow> preserves I (logger l msg)"
  by (simp add: preserves_def logger_def)

lemma preserves_request:
  "(\<And>st. I st \<Longrightarrow> I (st\<lparr>calls := calls st @ [b]\<rparr>)) \<Longrightarrow> preserves I (request b f)"
  by (simp add: preserves_def request_def)

lemma preserves_bind:
  assumes "preserves I m" and "\<And>v. preserves I (f v)"
  shows "preserves I (bind m f)"
  unfolding preserves_def
proof (intro allI impI)
  fix st assume "I st"
  obtain r st1 where 1: "m st = (r, st1)" by (cases "m st")
  with assms(1) \<open>I st\<close> have 2: "I st1" by (auto simp: preserves_def dest!: spec[of _ st])
  show "I (snd (bind m f st))"
  proof (cases r)
    case (Inl e)
    with 1 2 show ?thesis by (simp add: bind_def)
  next
    case (Inr v)
    with 1 2 assms(2)[of v] show ?thesis by (simp add: bind_def preserves_def)
  qed
qed

lemma preserves_try_except:
  assumes "preserves I m" and "\<And>e. preserves I (h e)"
  shows "preserves I (try_except m h)"
  unfolding preserves_def
proof (intro allI impI)
  fix st assume "I st"
  obtain r st1 where 1: "m st = (r, st1)" by (cases "m st")
  with assms(1) \<open>I st\<close> have 2: "I st1" by (auto simp: preserves_def dest!: spec[of _ st])
  show "I (snd (try_except m h st))"
  proof (cases r)
    case (Inl x)
    obtain e where "x = Exn e" by (cases x)
    with Inl 1 2 assms(2)[of e] show ?thesis by (simp add: try_except_def preserves_def)
  next
    case (Inr v)
    with 1 2 show ?thesis by (simp add: try_except_def)
  qed
qed

lemma preserves_if:
  "(c \<Longrightarrow> preserves I a) \<Longrightarrow> (\<not> c \<Longrightarrow> preserves I b) \<Longrightarrow> preserves I (if c then a else b)"
  by simp

lemma preserves_option_case:
  "preserves I a \<Longrightarrow> (\<And>s. preserves I (b s)) \<Longrightarrow> preserves I (case r of None \<Rightarrow> a | Some s \<Rightarrow> b s)"
  by (cases r) simp_all

lemma preserves_prod_case:
  "(\<And>a b. preserves I (f a b)) \<Longrightarrow> preserves I (case p of (a, b) \<Rightarrow> f a b)"
  by (cases p) simp

lemmas preserves_intros = preserves_ret preserves_lift preserves_bind preserves_try_except
  preserves_if preserves_option_case preserves_prod_case

lemma preserves_extract_page_title:
  assumes "\<And>st x. I st \<Longrightarrow> I (st\<lparr>logs := x\<rparr>)"
    and "\<And>st. I st \<Longrightarrow> I (st\<lparr>calls := calls st @ [Web]\<rparr>)"
  shows "preserves I (extract_page_title w url)"
  unfolding extract_page_title_def
  by (intro preserves_intros preserves_logger preserves_request assms)

lemma preserves_generate_simple_summary:
  assumes "\<And>st x. I st \<Longrightarrow> I (st\<lparr>logs := x\<rparr>)"
  shows "preserves I (generate_simple_summary w content url)"
  unfolding generate_simple_summary_def
  by (intro preserves_intros preserves_logger assms)

lemma preserves_hf_read_summary: "preserves I (hf_read_summary result)"
  unfolding hf_read_summary_def
  by (auto split: json.splits list.splits intro!: preserves_intros)

lemma preserves_hf_try:
  assumes "\<And>st x. I st \<Longrightarrow> I (st\<lparr>logs := x\<rparr>)"
    and "\<And>st. I st \<Longrightarrow> I (st\<lparr>calls := calls st @ [Web]\<rparr>)"
    and "\<And>st. I st \<Longrightarrow> I (st\<lparr>calls := calls st @ [HuggingFace]\<rparr>)"
  shows "preserves I (hf_try w content url)"
  unfolding hf_try_def hf_text_to_summarize_def
  by (intro preserves_intros preserves_logger preserves_request preserves_hf_read_summary
        preserves_extract_page_title assms)

lemma preserves_generate_summary_with_huggingface:
  assumes "\<And>st x. I st \<Longrightarrow> I (st\<lparr>logs := x\<rparr>)"
    and "\<And>st. I st \<Longrightarrow> I (st\<lparr>calls := calls st @ [Web]\<rparr>)"
    and "\<And>st. I st \<Longrightarrow> I (st\<lparr>calls := calls st @ [HuggingFace]\<rparr>)"
  shows "preserves I (generate_summary_with_huggingface w content url)"
  unfolding generate_summary_with_huggingface_def
  by (intro preserves_intros preserves_logger preserves_hf_try
        preserves_generate_simple_summary assms)

lemma preserves_generate_summary_with_openai:
  assumes "\<And>st x. I st \<Longrightarrow> I (st\<lparr>logs := x\<rparr>)"
    and "\<And>st. I st \<Longrightarrow> I (st\<lparr>calls := calls st @ [Web]\<rparr>)"
    and "\<And>st. I st \<Longrightarrow> I (st\<lparr>calls := calls st @ [OpenAI]\<rparr>)"
  shows "preserves I (generate_summary_with_openai w content url)"
  unfolding generate_summary_with_openai_def
  by (intro preserves_intros preserves_logger preserves_request
        preserves_extract_page_title assms)

lemma preserves_ollama_try:
  assumes "\<And>st x. I st \<Longrightarrow> I (st\<lparr>logs := x\<rparr>)"
    and "\<And>st. I st \<Longrightarrow> I (st\<lparr>calls := calls st @ [Web]\<rparr>)"
    and "\<And>st. I st \<Longrightarrow> I (st\<lparr>calls := calls st @ [Ollama]\<rparr>)"
  shows "preserves I (ollama_try w content url)"
  unfolding ollama_try_def
  by (intro preserves_intros preserves_logger preserves_request
        preserves_extract_page_title assms)

lemma preserves_generate_summary_with_ollama:
  assumes "\<And>st x. I st \<Longrightarrow> I (st\<lparr>logs := x\<rparr>)"
    and "\<And>st b. I st \<Longrightarrow> b \<noteq> Sheets \<Longrightarrow> b \<noteq> Twilio \<Longrightarrow> I (st\<lparr>calls := calls st @ [b]\<rparr>)"
  shows "preserves I (generate_summary_with_ollama w content url)"
  unfolding generate_summary_with_ollama_def
  by (intro preserves_intros preserves_logger preserves_ollama_try
        preserves_generate_summary_with_openai assms) simp_all

lemma returnsD: "returns m \<Longrightarrow> \<exists>v st'. m st = (Inr v, st')"
  by (simp add: returns_def)

lemma preservesD: "preserves I m \<Longrightarrow> I st \<Longrightarrow> I (snd (m st))"
  by (simp add: preserves_def)

lemma bind_Inr: "m st = (Inr v, st1) \<Longrightarrow> bind m f st = f v st1"
  by (simp add: bind_def)

lemma row_fields:
  "row_kind (build_row now mt content url summary sender) = mt"
  "row_content (build_row now mt content url summary sender) = take 500 content"
  "row_url (build_row now mt content url summary sender) = or_else url ''''"
  by (simp_all add: build_row_def row_kind_def row_content_def row_url_def)

lemma log_to_spreadsheet_appends:
  assumes "sheet st = Some rows"
    and "append_row w (length (calls st))
           (build_row (clock w (length (calls st))) mt content url summary sender) = None"
  shows "\<exists>st'. log_to_spreadsheet w mt content url summary sender st = (Inr (), st')
           \<and> sheet st' = Some (rows @ [build_row (clock w (length (calls st))) mt content url
                                          summary sender])"
  using assms
  by (simp add: log_to_spreadsheet_def try_except_def bind_def sheet_append_row_def logger_def)

lemma log_to_spreadsheet_fails:
  assumes "sheet st = None \<or> (\<exists>e. append_row w (length (calls st))
           (build_row (clock w (length (calls st))) mt content url summary sender) = Some e)"
  shows "\<exists>st' msg. log_to_spreadsheet w mt content url summary sender st = (Inr (), st')
           \<and> sheet st' = sheet st \<and> sent st' = sent st \<and> logs st' = logs st @ [(ERROR, msg)]"
proof (cases "sheet st")
  case None
  then show ?thesis by (simp add: log_to_spreadsheet_def logger_def)
next
  case (Some rows)
  with assms obtain e where "append_row w (length (calls st))
           (build_row (clock w (length (calls st))) mt content url summary sender) = Some e"
    by auto
  with Some show ?thesis
    by (simp add: log_to_spreadsheet_def try_except_def bind_def sheet_append_row_def logger_def)
qed

lemma returns_log_links:
  assumes "\<And>content url. returns (S w content url)"
  shows "returns (log_links S w body sender urls)"
  by (induction urls) (auto intro!: returns_ret returns_bind returns_log_to_spreadsheet assms)

lemma log_links_rows:
  assumes S_ret: "\<And>content url. returns (S w content url)"
    and S_keeps: "\<And>content url x. preserves (\<lambda>st. sheet st = x) (S w content url)"
    and ok: "\<forall>t r. append_row w t r = None"
  shows "sheet st = Some rows \<Longrightarrow>
         \<exists>st' new. log_links S w body sender urls st = (Inr (), st')
           \<and> sheet st' = Some (rows @ new)
           \<and> map row_kind new = replicate (length urls) ''Link''
           \<and> map row_url new = urls
           \<and> map row_content new = replicate (length urls) (take 500 body)"
proof (induction urls arbitrary: st rows)
  case Nil
  then show ?case by (simp add: ret_def)
next
  case (Cons u us)
  from returnsD[OF S_ret[of body "Some u"], of st] obtain summary st1 where
    1: "S w body (Some u) st = (Inr summary, st1)" by blast
  from preservesD[OF S_keeps[of "Some rows" body "Some u"], of st] Cons.prems 1
  have 2: "sheet st1 = Some rows" by simp
  let ?row = "build_row (clock w (length (calls st1))) ''Link'' body (Some u) summary sender"
  from log_to_spreadsheet_appends[OF 2, of w "''Link''" body "Some u" summary sender] ok
  obtain st2 where 3: "log_to_spreadsheet w ''Link'' body (Some u) summary sender st1 = (Inr (), st2)"
    and 4: "sheet st2 = Some (rows @ [?row])" by auto
  from Cons.IH[OF 4] obtain st3 new where
    5: "log_links S w body sender us st2 = (Inr (), st3)"
    and 6: "sheet st3 = Some ((rows @ [?row]) @ new)"
    and 7: "map row_kind new = replicate (length us) ''Link''" "map row_url new = us"
       "map row_content new = replicate (length us) (take 500 body)"
    by blast
  have a: "log_links S w body sender (u # us) st = (Inr (), st3)"
    using 1 3 5 by (simp add: bind_Inr)
  have b: "sheet st3 = Some (rows @ (?row # new))" using 6 by simp
  have c: "map row_kind (?row # new) = replicate (length (u # us)) ''Link''"
    using 7 by (simp add: row_fields)
  have d: "map row_url (?row # new) = u # us"
    using 7 by (simp add: row_fields or_else_def)
  have e: "map row_content (?row # new) = replicate (length (u # us)) (take 500 body)"
    using 7 by (simp add: row_fields)
  show ?case
    by (rule exI[of _ st3], rule exI[of _ "?row # new"]) (intro conjI a b c d e)
qed

lemma process_message_links:
  assumes S_ret: "\<And>content url. returns (S w content url)"
    and S_keeps: "\<And>content url x. preserves (\<lambda>st. sheet st = x) (S w content url)"
    and ok: "\<forall>t r. append_row w t r = None"
    and sh: "sheet st = Some rows"
    and urls: "findall body \<noteq> []"
  shows "\<exists>st' new. process_message S w body sender st =
             (Inr (check_mark @ '' Logged '' @ str_nat (length (findall body))
                   @ '' link(s) to your spreadsheet!''), st')
           \<and> sheet st' = Some (rows @ new)
           \<and> length new = length (findall body)
           \<and> map row_kind new = replicate (length (findall body)) ''Link''
           \<and> map row_url new = findall body
           \<and> map row_content new = replicate (length (findall body)) (take 500 body)"
proof -
  let ?st0 = "st\<lparr>logs := logs st @ [(INFO, ''Processing message from '' @ sender @ '': '' @ body)]\<rparr>"
  have "sheet ?st0 = Some rows" using sh by simp
  from log_links_rows[where S=S and w=w, OF S_ret S_keeps ok this, of body sender "findall body"]
  obtain st' new where 1: "log_links S w body sender (findall body) ?st0 = (Inr (), st')"
    and 2: "sheet st' = Some (rows @ new)"
    and 3: "map row_kind new = replicate (length (findall body)) ''Link''"
      "map row_url new = findall body"
      "map row_content new = replicate (length (findall body)) (take 500 body)"
    by blast
  have "length new = length (findall body)" using 3(2) by (metis length_map)
  moreover have "process_message S w body sender st =
             (Inr (check_mark @ '' Logged '' @ str_nat (length (findall body))
                   @ '' link(s) to your spreadsheet!''), st')"
    using urls 1 by (simp add: process_message_def bind_def logger_def ret_def)
  ultimately show ?thesis using 2 3 by blast
qed

lemma process_message_plain:
  assumes S_ret: "\<And>content url. returns (S w content url)"
    and S_keeps: "\<And>content url x. preserves (\<lambda>st. sheet st = x) (S w content url)"
    and ok: "\<forall>t r. append_row w t r = None"
    and sh: "sheet st = Some rows"
    and urls: "findall body = []"
  shows "\<exists>st' row. process_message S w body sender st =
             (Inr (check_mark @ '' Message logged to your spreadsheet!''), st')
           \<and> sheet st' = Some (rows @ [row])
           \<and> row_kind row = ''Message''
           \<and> row_url row = ''''
           \<and> row_content row = take 500 body"
proof -
  let ?st0 = "st\<lparr>logs := logs st @ [(INFO, ''Processing message from '' @ sender @ '': '' @ body)]\<rparr>"
  from returnsD[OF S_ret[of body None], of ?st0] obtain summary st1 where
    1: "S w body None ?st0 = (Inr summary, st1)" by blast
  from preservesD[OF S_keeps[of "Some rows" body None], of ?st0] sh 1
  have 2: "sheet st1 = Some rows" by simp
  let ?row = "build_row (clock w (length (calls st1))) ''Message'' body None summary sender"
  from log_to_spreadsheet_appends[OF 2, of w "''Message''" body None summary sender] ok
  obtain st2 where 3: "log_to_spreadsheet w ''Message'' body None summary sender st1 = (Inr (), st2)"
    and 4: "sheet st2 = Some (rows @ [?row])" by auto
  have "process_message S w body sender st =
             (Inr (check_mark @ '' Message logged to your spreadsheet!''), st2)"
    using urls 1 3 by (simp add: process_message_def bind_def logger_def ret_def)
  moreover have "row_kind ?row = ''Message''" "row_url ?row = ''''" "row_content ?row = take 500 body"
    by (simp_all add: row_fields or_else_def)
  ultimately show ?thesis using 4 by blast
qed

lemma process_message_reply:
  assumes S_ret: "\<And>content url. returns (S w content url)"
  shows "\<exists>st'. process_message S w body sender st =
             (Inr (if findall body \<noteq> []
                   then check_mark @ '' Logged '' @ str_nat (length (findall body))
                        @ '' link(s) to your spreadsheet!''
                   else check_mark @ '' Message logged to your spreadsheet!''), st')"
proof -
  let ?st0 = "st\<lparr>logs := logs st @ [(INFO, ''Processing message from '' @ sender @ '': '' @ body)]\<rparr>"
  show ?thesis
  proof (cases "findall body = []")
    case True
    from returnsD[OF S_ret[of body None], of ?st0] obtain summary st1 where
      1: "S w body None ?st0 = (Inr summary, st1)" by blast
    from returnsD[OF returns_log_to_spreadsheet[of w "''Message''" body None summary sender], of st1]
    obtain st2 where 2: "log_to_spreadsheet w ''Message'' body None summary sender st1 = (Inr (), st2)"
      by auto
    show ?thesis using True 1 2 by (simp add: process_message_def bind_def logger_def ret_def)
  next
    case False
    from returnsD[OF returns_log_links[of S w body sender "findall body"], of ?st0] S_ret
    obtain st1 where 1: "log_links S w body sender (findall body) ?st0 = (Inr (), st1)"
      by auto
    show ?thesis using False 1 by (simp add: process_message_def bind_def logger_def ret_def)
  qed
qed

section \<open>The two summarizers leave the sheet alone\<close>

lemma keeps_sheet_huggingface:
  "preserves (\<lambda>st. sheet st = x) (generate_summary_with_huggingface w content url)"
  by (rule preserves_generate_summary_with_huggingface) simp_all

lemma keeps_sheet_ollama:
  "preserves (\<lambda>st. sheet st = x) (generate_summary_with_ollama w content url)"
  by (rule preserves_generate_summary_with_ollama) simp_all

lemmas eval_defs = match_here_def after_scheme_def cls_alpha_def cls_digit_def cls_sym_def
  cls_punct_def cls_hex_def in_range_def

section \<open>The URL pattern as a set of characters\<close>

lemma url_char_classes:
  "cls_alpha c \<or> cls_digit c \<or> cls_sym c \<or> cls_punct c \<longleftrightarrow> url_char c"
  by (auto simp: cls_alpha_def cls_digit_def cls_sym_def cls_punct_def url_char_def in_range_def)

lemma percent_is_url_char: "url_char CHR ''%''"
  by (simp add: url_char_def in_range_def)

lemma url_units_takeWhile: "url_units s = takeWhile url_char s"
proof (induction s rule: url_units.induct)
  case 1
  show ?case by simp
next
  case (2 c cs)
  show ?case
  proof (cases "url_char c")
    case True
    with 2 show ?thesis by (simp add: url_char_classes)
  next
    case False
    then have "c \<noteq> CHR ''%''" using percent_is_url_char by auto
    with False show ?thesis by (simp add: url_char_classes split: list.splits)
  qed
qed

lemma after_scheme_run:
  "after_scheme scheme s =
     (if prefix ''://'' s \<and> takeWhile url_char (drop 3 s) \<noteq> []
      then Some (scheme @ ''://'' @ takeWhile url_char (drop 3 s)) else None)"
  by (simp add: after_scheme_def url_units_takeWhile Let_def)

lemma match_here_run:
  "match_here s =
     (if prefix ''https://'' s \<and> takeWhile url_char (drop 8 s) \<noteq> []
      then Some (''https://'' @ takeWhile url_char (drop 8 s))
      else if prefix ''http://'' s \<and> takeWhile url_char (drop 7 s) \<noteq> []
      then Some (''http://'' @ takeWhile url_char (drop 7 s))
      else None)"
proof (cases "prefix ''http'' s")
  case False
  then have "\<not> prefix ''https://'' s" "\<not> prefix ''http://'' s"
    by (auto simp: prefix_def)
  with False show ?thesis by (simp add: match_here_def)
next
  case True
  then obtain r where s: "s = ''http'' @ r" by (auto simp: prefix_def)
  show ?thesis
  proof (cases "prefix ''s'' r")
    case True
    then obtain r' where r: "r = ''s'' @ r'" by (auto simp: prefix_def)
    show ?thesis by (simp add: s r match_here_def after_scheme_run)
  next
    case False
    then show ?thesis by (cases r) (auto simp add: s match_here_def after_scheme_run)
  qed
qed

lemma match_here_cases:
  assumes "match_here s = Some m"
  obtains (https) "prefix ''https://'' s" "m = ''https://'' @ takeWhile url_char (drop 8 s)"
      "takeWhile url_char (drop 8 s) \<noteq> []"
    | (http) "prefix ''http://'' s" "m = ''http://'' @ takeWhile url_char (drop 7 s)"
      "takeWhile url_char (drop 7 s) \<noteq> []"
  using assms unfolding match_here_run by (auto split: if_splits)

lemma prefix_with_run:
  "prefix p s \<Longrightarrow> prefix (p @ takeWhile P (drop (length p) s)) s"
  by (auto simp: prefix_def) (metis takeWhile_dropWhile_id)

lemma match_here_shape:
  assumes "match_here s = Some m"
  shows "\<exists>run. (m = ''http://'' @ run \<or> m = ''https://'' @ run) \<and> run \<noteq> []
           \<and> (\<forall>c\<in>set run. url_char c)"
    and "prefix m s" and "m \<noteq> []"
proof -
  have run: "\<forall>c\<in>set (takeWhile url_char t). url_char c" for t
    by (auto dest: set_takeWhileD)
  from assms show "\<exists>run. (m = ''http://'' @ run \<or> m = ''https://'' @ run) \<and> run \<noteq> []
           \<and> (\<forall>c\<in>set run. url_char c)"
  proof (cases rule: match_here_cases)
    case https
    with run[of "drop 8 s"] show ?thesis by blast
  next
    case http
    with run[of "drop 7 s"] show ?thesis by blast
  qed
  from assms show "prefix m s"
  proof (cases rule: match_here_cases)
    case https
    have l: "length ''https://'' = 8" by simp
    from prefix_with_run[OF https(1), of url_char] show ?thesis unfolding https(2) l .
  next
    case http
    have l: "length ''http://'' = 7" by simp
    from prefix_with_run[OF http(1), of url_char] show ?thesis unfolding http(2) l .
  qed
  from assms show "m \<noteq> []"
    by (cases rule: match_here_cases) simp_all
qed

lemma findall_shape:
  "\<forall>u\<in>set (findall s). \<exists>run. (u = ''http://'' @ run \<or> u = ''https://'' @ run) \<and> run \<noteq> []
      \<and> (\<forall>c\<in>set run. url_char c)"
proof (induction s rule: findall.induct)
  case 1
  show ?case by simp
next
  case (2 c cs)
  show ?case
  proof (cases "match_here (c # cs)")
    case None
    with 2(1) show ?thesis by simp
  next
    case (Some m)
    with 2(2)[OF Some] match_here_shape(1)[OF Some] show ?thesis by simp
  qed
qed

lemma findall_in_order:
  "\<exists>gaps rest. length gaps = length (findall s)
      \<and> s = concat (map2 (@) gaps (findall s)) @ rest"
proof (induction s rule: findall.induct)
  case 1
  show ?case by simp
next
  case (2 c cs)
  show ?case
  proof (cases "match_here (c # cs)")
    case None
    with 2(1) obtain gaps rest where g: "length gaps = length (findall cs)"
      "cs = concat (map2 (@) gaps (findall cs)) @ rest" by blast
    show ?thesis
    proof (cases gaps)
      case Nil
      with g have "length ([]::string list) = length (findall (c # cs))"
        "c # cs = concat (map2 (@) [] (findall (c # cs))) @ (c # rest)"
        using None by auto
      then show ?thesis by blast
    next
      case (Cons g0 gs)
      with g obtain u us where f: "findall cs = u # us" by (cases "findall cs") auto
      from g Cons f have "length ((c # g0) # gs) = length (findall (c # cs))"
        "c # cs = concat (map2 (@) ((c # g0) # gs) (findall (c # cs))) @ rest"
        using None by auto
      then show ?thesis by blast
    qed
  next
    case (Some m)
    from match_here_shape(2,3)[OF Some] obtain t where t: "c # cs = m @ t" and m: "m \<noteq> []"
      by (auto simp: prefix_def)
    then have d: "drop (length m - 1) cs = t"
      by (cases m) auto
    from 2(2)[OF Some] d obtain gaps rest where g: "length gaps = length (findall t)"
      "t = concat (map2 (@) gaps (findall t)) @ rest" by auto
    have f: "findall (c # cs) = m # findall t" using Some d by simp
    have "concat (map2 (@) ([] # gaps) (m # findall t)) @ rest
            = m @ (concat (map2 (@) gaps (findall t)) @ rest)" by simp
    also have "\<dots> = m @ t" using g(2) by simp
    also have "\<dots> = c # cs" using t by simp
    finally have "c # cs = concat (map2 (@) ([] # gaps) (findall (c # cs))) @ rest"
      unfolding f by simp
    moreover have "length ([] # gaps) = length (findall (c # cs))"
      unfolding f using g(1) by simp
    ultimately show ?thesis by blast
  qed
qed

lemma findall_scan:
  "findall (c # cs) =
     (case match_here (c # cs) of
        Some m \<Rightarrow> m # findall (drop (length m) (c # cs))
      | None \<Rightarrow> findall cs)"
proof (cases "match_here (c # cs)")
  case None
  then show ?thesis by simp
next
  case (Some m)
  from match_here_shape(3)[OF Some] have "drop (length m) (c # cs) = drop (length m - 1) cs"
    by (cases m) simp_all
  with Some show ?thesis by simp
qed

section \<open>What the backends are asked, and in which order\<close>



















lemma fox_keywords:
  "summary_keywords ''The quick brown fox jumps'' = [''quick'', ''brown'', ''jumps'']"
  by code_simp

lemma webhook_processes_full_request:
  "fst (app_webhook offline_world [''Body'' \<mapsto> ''hello there'', ''From'' \<mapsto> ''whatsapp:+1555'']
          init_state) = Inr ([(''status'', ''success'')], 200)
   \<and> sent (snd (app_webhook offline_world
                   [''Body'' \<mapsto> ''hello there'', ''From'' \<mapsto> ''whatsapp:+1555''] init_state))
       = [(''whatsapp:+1555'', check_mark @ '' Message logged to your spreadsheet!'')]"
  by (simp add: app_webhook_def webhook_def form_get_def try_except_def bind_def ret_def
        app_process_message_def process_message_def logger_def eval_defs
        generate_summary_with_huggingface_def hf_try_def hf_text_to_summarize_def present_def
        truthy_def offline_world_def request_def generate_simple_summary_def
        summary_keywords_def common_words_def py_split_def py_lower_def py_lower_char_def
        py_isspace_def char_of_def bit_Suc_0_iff log_to_spreadsheet_def init_state_def
        sheet_append_row_def build_row_def or_else_def send_whatsapp_message_def
        twilio_messages_create_def check_mark_def)

section \<open>The hosted-model path never returns an empty summary\<close>

lemma yields_ret: "P v \<Longrightarrow> yields P (ret v)"
  by (simp add: yields_def ret_def)

lemma yields_bind: "(\<And>v. yields P (f v)) \<Longrightarrow> yields P (bind m f)"
  by (auto simp: yields_def bind_def split: prod.splits sum.splits)

lemma yields_bind_after:
  assumes "yields Q m" and "\<And>v. Q v \<Longrightarrow> yields P (f v)"
  shows "yields P (bind m f)"
  unfolding yields_def
proof (intro allI impI)
  fix st v st'
  assume b: "bind m f st = (Inr v, st')"
  obtain r st1 where m: "m st = (r, st1)" by (cases "m st")
  show "P v"
  proof (cases r)
    case (Inl e)
    with m b show ?thesis by (simp add: bind_def)
  next
    case (Inr x)
    with m assms(1) have "Q x" by (auto simp: yields_def)
    from assms(2)[OF this] have "yields P (f x)" .
    moreover from Inr m b have "f x st1 = (Inr v, st')" by (simp add: bind_def)
    ultimately show ?thesis unfolding yields_def by blast
  qed
qed

lemma yields_prod_case:
  "(\<And>a b. yields P (f a b)) \<Longrightarrow> yields P (case p of (a, b) \<Rightarrow> f a b)"
  by (cases p) simp

lemma yields_try_except:
  "yields P m \<Longrightarrow> (\<And>e. yields P (h e)) \<Longrightarrow> yields P (try_except m h)"
  by (auto simp: yields_def try_except_def split: prod.splits sum.splits exn.splits)

lemma words_from_nonempty: "\<forall>x\<in>set (words_from cur s). x \<noteq> []"
  by (induction s arbitrary: cur) auto

lemma py_split_nonempty: "x \<in> set (py_split s) \<Longrightarrow> x \<noteq> []"
  using words_from_nonempty[of "[]" s] by (auto simp: py_split_def)

lemma py_join_nonempty: "ws \<noteq> [] \<Longrightarrow> hd ws \<noteq> [] \<Longrightarrow> py_join sep ws \<noteq> []"
  by (induction sep ws rule: py_join.induct) auto

lemma first_words_nonempty:
  assumes "take 5 (py_split s) \<noteq> []"
  shows "first_words s \<noteq> []"
proof -
  from assms have "hd (take 5 (py_split s)) \<in> set (py_split s)"
    by (metis hd_in_set in_set_takeD)
  then have "hd (take 5 (py_split s)) \<noteq> []" by (rule py_split_nonempty)
  with assms show ?thesis unfolding first_words_def by (rule py_join_nonempty)
qed

lemma summary_keywords_nonempty:
  assumes "summary_keywords content \<noteq> []"
  shows "py_join '' '' (summary_keywords content) \<noteq> []"
proof -
  from assms have "hd (summary_keywords content) \<in> set (summary_keywords content)" by simp
  then have "3 < length (hd (summary_keywords content))"
    unfolding summary_keywords_def by (auto dest!: in_set_takeD)
  then have "hd (summary_keywords content) \<noteq> []" by auto
  with assms show ?thesis by (rule py_join_nonempty)
qed

lemma yields_generate_simple_summary:
  "yields (\<lambda>s. s \<noteq> []) (generate_simple_summary w content url)"
  unfolding generate_simple_summary_def
  by (cases "present url")
     (auto intro!: yields_try_except yields_bind yields_ret simp: summary_keywords_nonempty)

lemma yields_hf_read_summary:
  "yields (\<lambda>r. case r of Some s \<Rightarrow> s \<noteq> [] | None \<Rightarrow> True) (hf_read_summary result)"
  unfolding hf_read_summary_def
  by (auto split: json.splits list.splits intro!: yields_bind yields_ret
           simp: first_words_nonempty)

lemma yields_hf_read_block:
  "yields (\<lambda>(r, s). case r of Some x \<Rightarrow> x \<noteq> [] | None \<Rightarrow> True)
     (bind (lift body) (\<lambda>result. bind (hf_read_summary result) (\<lambda>r. ret (r, status))))"
  by (intro yields_bind yields_bind_after[OF yields_hf_read_summary] yields_ret) simp

lemma yields_hf_try:
  "yields (\<lambda>r. case r of Some s \<Rightarrow> s \<noteq> [] | None \<Rightarrow> True) (hf_try w content url)"
  unfolding hf_try_def
proof (rule yields_bind, rule yields_bind, rule yields_bind, rule yields_prod_case)
  fix u :: unit and inp status_code body
  let ?Q = "\<lambda>(r, s::nat). case r of Some x \<Rightarrow> x \<noteq> [] | None \<Rightarrow> True"
  let ?X = "if status_code = 200
            then bind (lift body) (\<lambda>result.
                 bind (hf_read_summary result) (\<lambda>r. ret (r, status_code)))
            else if status_code = 503
            then bind (logger INFO ''HuggingFace model loading, retrying in 10 seconds...'') (\<lambda>_.
                 bind (request HuggingFace (\<lambda>t. hf_post w t inp))
                   (\<lambda>(status_code2, body2).
                      if status_code2 = 200
                      then bind (lift body2) (\<lambda>result.
                           bind (hf_read_summary result) (\<lambda>r. ret (r, status_code2)))
                      else ret (None, status_code2)))
            else ret (None, status_code)"
  have x: "yields ?Q ?X"
    by (auto intro!: yields_hf_read_block yields_bind yields_prod_case yields_ret)
  show "yields (\<lambda>r. case r of Some s \<Rightarrow> s \<noteq> [] | None \<Rightarrow> True)
          (bind ?X (\<lambda>(r, last_status).
             case r of
               Some summary \<Rightarrow> ret (Some summary)
             | None \<Rightarrow>
                 bind (logger WARNING (''HuggingFace API returned status '' @ str_nat last_status))
                   (\<lambda>_. ret None)))"
    by (rule yields_bind_after[OF x])
       (auto intro!: yields_bind yields_ret split: option.splits)
qed

lemma huggingface_summary_nonempty:
  "\<exists>s st'. generate_summary_with_huggingface w content url st = (Inr s, st') \<and> s \<noteq> []"
proof -
  have "yields (\<lambda>s. s \<noteq> []) (generate_summary_with_huggingface w content url)"
    unfolding generate_summary_with_huggingface_def
  proof (rule yields_bind_after[where Q = "\<lambda>r. case r of Some s \<Rightarrow> s \<noteq> [] | None \<Rightarrow> True"])
    show "yields (\<lambda>r. case r of Some s \<Rightarrow> s \<noteq> [] | None \<Rightarrow> True)
            (try_except (hf_try w content url)
               (\<lambda>e. bind (logger ERROR (''Error with HuggingFace API: '' @ e)) (\<lambda>_. ret None)))"
      by (intro yields_try_except yields_hf_try yields_bind yields_ret) simp
    show "yields (\<lambda>s. s \<noteq> [])
            (case r of Some summary \<Rightarrow> ret summary
             | None \<Rightarrow> generate_simple_summary w content url)"
      if "case r of Some s \<Rightarrow> s \<noteq> [] | None \<Rightarrow> True" for r
      using that by (cases r) (auto intro: yields_ret yields_generate_simple_summary)
  qed
  moreover from returnsD[OF returns_generate_summary_with_huggingface, of w content url st]
  obtain s st' where "generate_summary_with_huggingface w content url st = (Inr s, st')" by blast
  ultimately show ?thesis by (auto simp: yields_def)
qed

section \<open>Links: one row per URL occurrence\<close>

text \<open>
  C1. For a message body in which \<open>findall\<close> finds \<open>N \<ge> 1\<close> URL occurrences, when the
  sheet handle is there and every append succeeds, \<open>process_message\<close> of either file
  appends exactly \<open>N\<close> rows of kind \<open>Link\<close>, whose URL fields are the occurrences in
  extraction order, duplicates kept, and it returns the reply made of the check mark, a
  space and \<open>Logged N link(s) to your spreadsheet!\<close>.
\<close>

theorem process_message_logs_every_link:
  assumes "sheet st = Some rows"
    and "\<forall>t r. append_row w t r = None"
    and "findall body \<noteq> []"
  shows "(\<exists>st' new. app_process_message w body sender st =
             (Inr (check_mark @ '' Logged '' @ str_nat (length (findall body))
                   @ '' link(s) to your spreadsheet!''), st')
           \<and> sheet st' = Some (rows @ new)
           \<and> length new = length (findall body)
           \<and> map row_kind new = replicate (length (findall body)) ''Link''
           \<and> map row_url new = findall body)
       \<and> (\<exists>st' new. main_process_message w body sender st =
             (Inr (check_mark @ '' Logged '' @ str_nat (length (findall body))
                   @ '' link(s) to your spreadsheet!''), st')
           \<and> sheet st' = Some (rows @ new)
           \<and> length new = length (findall body)
           \<and> map row_kind new = replicate (length (findall body)) ''Link''
           \<and> map row_url new = findall body)"
proof
  from process_message_links[where S = generate_summary_with_huggingface and w = w,
      OF returns_generate_summary_with_huggingface keeps_sheet_huggingface assms(2,1,3),
      of sender]
  show "\<exists>st' new. app_process_message w body sender st =
             (Inr (check_mark @ '' Logged '' @ str_nat (length (findall body))
                   @ '' link(s) to your spreadsheet!''), st')
           \<and> sheet st' = Some (rows @ new)
           \<and> length new = length (findall body)
           \<and> map row_kind new = replicate (length (findall body)) ''Link''
           \<and> map row_url new = findall body"
    unfolding app_process_message_def by blast
  from process_message_links[where S = generate_summary_with_ollama and w = w,
      OF returns_generate_summary_with_ollama keeps_sheet_ollama assms(2,1,3),
      of sender]
  show "\<exists>st' new. main_process_message w body sender st =
             (Inr (check_mark @ '' Logged '' @ str_nat (length (findall body))
                   @ '' link(s) to your spreadsheet!''), st')
           \<and> sheet st' = Some (rows @ new)
           \<and> length new = length (findall body)
           \<and> map row_kind new = replicate (length (findall body)) ''Link''
           \<and> map row_url new = findall body"
    unfolding main_process_message_def by blast
qed

theorem process_message_logs_every_link_witness:
  "sheet init_state = Some []
   \<and> (\<forall>t r. append_row offline_world t r = None)
   \<and> findall ''see http://a.b/c and http://a.b/c'' = [''http://a.b/c'', ''http://a.b/c'']
   \<and> (\<exists>st' new. app_process_message offline_world ''see http://a.b/c and http://a.b/c'' ''+1555''
                     init_state
                   = (Inr (check_mark @ '' Logged '' @ str_nat 2 @ '' link(s) to your spreadsheet!''),
                      st')
         \<and> sheet st' = Some ([] @ new)
         \<and> length new = 2
         \<and> map row_kind new = replicate 2 ''Link''
         \<and> map row_url new = [''http://a.b/c'', ''http://a.b/c''])
   \<and> str_nat 2 = ''2''"
proof -
  have h1: "sheet init_state = Some []" by (simp add: init_state_def)
  have h2: "\<forall>t r. append_row offline_world t r = None" by (simp add: offline_world_def)
  have h3: "findall ''see http://a.b/c and http://a.b/c'' = [''http://a.b/c'', ''http://a.b/c'']"
    by (simp add: eval_defs)
  have h4: "findall ''see http://a.b/c and http://a.b/c'' \<noteq> []" unfolding h3 by simp
  have l: "length [''http://a.b/c'', ''http://a.b/c''] = 2" by simp
  have n: "str_nat 2 = ''2''" by (simp add: str_nat.simps)
  note r = process_message_logs_every_link[OF h1 h2 h4, of "''+1555''", unfolded h3 l]
  show ?thesis by (rule conjI[OF h1 conjI[OF h2 conjI[OF h3 conjI[OF conjunct1[OF r] n]]]])
qed

text \<open>
  As the specification words it, the property fails twice on a body with one URL: the
  reply is not the bare text \<open>Logged 1 link(s) to your spreadsheet!\<close>, because the literal
  of the source starts with a check mark; and with no sheet handle no row is appended.
\<close>

theorem process_message_links_counterexample:
  "findall ''see http://a.b/c'' = [''http://a.b/c'']
   \<and> fst (app_process_message offline_world ''see http://a.b/c'' ''+1555'' init_state)
       = Inr (check_mark @ '' Logged 1 link(s) to your spreadsheet!'')
   \<and> fst (app_process_message offline_world ''see http://a.b/c'' ''+1555'' init_state)
       \<noteq> Inr ''Logged 1 link(s) to your spreadsheet!''
   \<and> sheet (snd (app_process_message offline_world ''see http://a.b/c'' ''+1555'' no_sheet_state))
       = None"
  by code_simp

section \<open>The summary is not always non-empty\<close>

text \<open>
  C2. The summarizer of main.py, \<open>generate_summary_with_ollama\<close>, returns the empty string
  when the local model server answers 200 with an empty (or blank, or missing) response,
  and so does \<open>generate_summary_with_openai\<close> on a blank completion: both join the first
  five words without the guard \<open>if words else "Summary generated"\<close> that the hosted-model
  path of app.py has (\<open>huggingface_summary_nonempty\<close> above: that path never returns an
  empty summary).
\<close>

theorem summarizers_return_empty_summary:
  "fst (generate_summary_with_ollama silent_models_world ''hello'' None init_state) = Inr ''''
   \<and> fst (generate_summary_with_openai silent_models_world ''hello'' None init_state) = Inr ''''"
  by code_simp

section \<open>The order of the summarizer chain\<close>




section \<open>Plain messages: one row\<close>

text \<open>
  C4. For a message body in which \<open>findall\<close> finds no URL, \<open>process_message\<close> of either
  file returns, from every state and in every world, the reply made of the check mark, a
  space and \<open>Message logged to your spreadsheet!\<close>, which contains \<open>Message logged\<close>; and
  when the sheet handle is there and every append succeeds, it appends exactly one row, of
  kind \<open>Message\<close>.
\<close>

theorem process_message_logs_plain_message:
  assumes "findall body = []"
  shows "(\<exists>st'. app_process_message w body sender st =
             (Inr (check_mark @ '' Message logged to your spreadsheet!''), st')
           \<and> (\<forall>rows. sheet st = Some rows \<and> (\<forall>t r. append_row w t r = None)
                 \<longrightarrow> (\<exists>row. sheet st' = Some (rows @ [row]) \<and> row_kind row = ''Message'')))
       \<and> (\<exists>st'. main_process_message w body sender st =
             (Inr (check_mark @ '' Message logged to your spreadsheet!''), st')
           \<and> (\<forall>rows. sheet st = Some rows \<and> (\<forall>t r. append_row w t r = None)
                 \<longrightarrow> (\<exists>row. sheet st' = Some (rows @ [row]) \<and> row_kind row = ''Message'')))
       \<and> sublist ''Message logged'' (check_mark @ '' Message logged to your spreadsheet!'')"
proof -
  have one: "\<exists>st'. process_message S w body sender st =
             (Inr (check_mark @ '' Message logged to your spreadsheet!''), st')
           \<and> (\<forall>rows. sheet st = Some rows \<and> (\<forall>t r. append_row w t r = None)
                 \<longrightarrow> (\<exists>row. sheet st' = Some (rows @ [row]) \<and> row_kind row = ''Message''))"
    if S_ret: "\<And>content url. returns (S w content url)"
      and S_keeps: "\<And>content url x. preserves (\<lambda>st. sheet st = x) (S w content url)" for S
  proof -
    from process_message_reply[where S = S and w = w, OF S_ret, of body sender st] assms
    obtain st' where r: "process_message S w body sender st =
             (Inr (check_mark @ '' Message logged to your spreadsheet!''), st')" by auto
    have "\<exists>row. sheet st' = Some (rows @ [row]) \<and> row_kind row = ''Message''"
      if sh: "sheet st = Some rows" and ok: "\<forall>t r. append_row w t r = None" for rows
    proof -
      from process_message_plain[where S = S and w = w, OF S_ret S_keeps ok sh assms, of sender]
      obtain st'' row where "process_message S w body sender st =
             (Inr (check_mark @ '' Message logged to your spreadsheet!''), st'')"
        "sheet st'' = Some (rows @ [row])" "row_kind row = ''Message''" by blast
      with r show ?thesis by auto
    qed
    with r show ?thesis by blast
  qed
  have "check_mark @ '' Message logged to your spreadsheet!''
          = (check_mark @ '' '') @ ''Message logged'' @ '' to your spreadsheet!''"
    by simp
  then have s: "sublist ''Message logged'' (check_mark @ '' Message logged to your spreadsheet!'')"
    unfolding sublist_def by blast
  from one[of generate_summary_with_huggingface, OF returns_generate_summary_with_huggingface
      keeps_sheet_huggingface]
    one[of generate_summary_with_ollama, OF returns_generate_summary_with_ollama
      keeps_sheet_ollama] s
  show ?thesis unfolding app_process_message_def main_process_message_def by (intro conjI)
qed

theorem process_message_logs_plain_message_witness:
  "findall ''hello there'' = []
   \<and> sheet init_state = Some []
   \<and> (\<forall>t r. append_row offline_world t r = None)
   \<and> (\<exists>st' row. app_process_message offline_world ''hello there'' ''+1555'' init_state =
             (Inr (check_mark @ '' Message logged to your spreadsheet!''), st')
           \<and> sheet st' = Some ([] @ [row]) \<and> row_kind row = ''Message'')
   \<and> (\<exists>st'. app_process_message offline_world ''hello there'' ''+1555'' no_sheet_state =
             (Inr (check_mark @ '' Message logged to your spreadsheet!''), st'))"
proof -
  have h1: "sheet init_state = Some []" by (simp add: init_state_def)
  have h2: "\<forall>t r. append_row offline_world t r = None" by (simp add: offline_world_def)
  have h3: "findall ''hello there'' = []" by (simp add: eval_defs)
  from conjunct1[OF process_message_logs_plain_message[OF h3, of offline_world "''+1555''"
      init_state]]
  obtain st' where a: "app_process_message offline_world ''hello there'' ''+1555'' init_state =
             (Inr (check_mark @ '' Message logged to your spreadsheet!''), st')"
    and b: "\<forall>rows. sheet init_state = Some rows \<and> (\<forall>t r. append_row offline_world t r = None)
                 \<longrightarrow> (\<exists>row. sheet st' = Some (rows @ [row]) \<and> row_kind row = ''Message'')"
    by blast
  from mp[OF spec[OF b, of "[]"] conjI[OF h1 h2]] obtain row where
    c: "sheet st' = Some ([] @ [row])" "row_kind row = ''Message''" by blast
  have x: "\<exists>st' row. app_process_message offline_world ''hello there'' ''+1555'' init_state =
             (Inr (check_mark @ '' Message logged to your spreadsheet!''), st')
           \<and> sheet st' = Some ([] @ [row]) \<and> row_kind row = ''Message''"
    by (rule exI[of _ st'], rule exI[of _ row]) (intro conjI a c)
  from conjunct1[OF process_message_logs_plain_message[OF h3, of offline_world "''+1555''"
      no_sheet_state]]
  have y: "\<exists>st'. app_process_message offline_world ''hello there'' ''+1555'' no_sheet_state =
             (Inr (check_mark @ '' Message logged to your spreadsheet!''), st')"
    by blast
  show ?thesis by (intro conjI h3 h1 h2 x y)
qed

text \<open>
  Without the condition on the sheet the property fails: with no sheet handle, or with
  an append that raises, no row is appended.
\<close>

theorem process_message_plain_counterexample:
  "findall ''hello there'' = []
   \<and> sheet (snd (app_process_message offline_world ''hello there'' ''+1555'' no_sheet_state)) = None
   \<and> sheet (snd (main_process_message broken_sheet_world ''hello there'' ''+1555'' init_state))
       = Some []"
  by code_simp

section \<open>The local fallback for a URL\<close>




section \<open>The local fallback for a text\<close>

text \<open>
  C6. With no URL the local fallback lower-cases the content, splits it on whitespace,
  keeps the words longer than 3 characters that are not stop words, takes the first 4 in
  their order and joins them with single spaces, and returns \<open>message received\<close> when none
  is left; \<open>The quick brown fox jumps\<close> gives \<open>quick brown jumps\<close>.
\<close>

theorem generate_simple_summary_of_words:
  "generate_simple_summary w content None st =
     (Inr (if take 4 (filter (\<lambda>word. 3 < length word
                                \<and> word \<notin> set [''the'', ''and'', ''or'', ''but'', ''in'', ''on'',
                                     ''at'', ''to'', ''for'', ''of'', ''with'', ''by'', ''is'',
                                     ''are'', ''was'', ''were'', ''a'', ''an''])
                      (py_split (py_lower content))) = []
           then ''message received''
           else py_join '' ''
                  (take 4 (filter (\<lambda>word. 3 < length word
                                \<and> word \<notin> set [''the'', ''and'', ''or'', ''but'', ''in'', ''on'',
                                     ''at'', ''to'', ''for'', ''of'', ''with'', ''by'', ''is'',
                                     ''are'', ''was'', ''were'', ''a'', ''an''])
                      (py_split (py_lower content))))), st)
   \<and> generate_simple_summary w ''The quick brown fox jumps'' None st
       = (Inr ''quick brown jumps'', st)"
proof
  show "generate_simple_summary w content None st =
     (Inr (if take 4 (filter (\<lambda>word. 3 < length word
                                \<and> word \<notin> set [''the'', ''and'', ''or'', ''but'', ''in'', ''on'',
                                     ''at'', ''to'', ''for'', ''of'', ''with'', ''by'', ''is'',
                                     ''are'', ''was'', ''were'', ''a'', ''an''])
                      (py_split (py_lower content))) = []
           then ''message received''
           else py_join '' ''
                  (take 4 (filter (\<lambda>word. 3 < length word
                                \<and> word \<notin> set [''the'', ''and'', ''or'', ''but'', ''in'', ''on'',
                                     ''at'', ''to'', ''for'', ''of'', ''with'', ''by'', ''is'',
                                     ''are'', ''was'', ''were'', ''a'', ''an''])
                      (py_split (py_lower content))))), st)"
    unfolding generate_simple_summary_def present_def try_except_def ret_def
      summary_keywords_def common_words_def
    by simp
  show "generate_simple_summary w ''The quick brown fox jumps'' None st
       = (Inr ''quick brown jumps'', st)"
    unfolding generate_simple_summary_def present_def try_except_def ret_def fox_keywords
    by simp
qed

text \<open>
  The example of the specification keeps \<open>fox\<close>, which has 3 characters and is dropped
  by \<open>len(word) > 3\<close>.
\<close>

theorem generate_simple_summary_words_counterexample:
  "fst (generate_simple_summary offline_world ''The quick brown fox jumps'' None init_state)
     = Inr ''quick brown jumps''
   \<and> fst (generate_simple_summary offline_world ''The quick brown fox jumps'' None init_state)
     \<noteq> Inr ''quick brown fox jumps''
   \<and> length ''fox'' = 3"
  by code_simp

section \<open>The link extractor\<close>

text \<open>
  C7. \<open>findall\<close> gives nothing on the empty text. At a position the pattern matches
  \<open>https://\<close> or \<open>http://\<close> followed by the longest non-empty run of characters of
  \<open>url_char\<close>: \<open>!\<close>, the codes from \<open>$\<close> to \<open>_\<close> (so also \<open>/ : ; < = > ? [ \ ] ^\<close> and a
  bare \<open>%\<close>) and the small letters. Every returned text has that form, the returned texts
  lie in the input one after the other in the order returned, duplicates kept, and after
  a match the scan goes on right behind it.
\<close>

theorem findall_urls:
  "findall [] = []
   \<and> match_here s =
       (if prefix ''https://'' s \<and> takeWhile url_char (drop 8 s) \<noteq> []
        then Some (''https://'' @ takeWhile url_char (drop 8 s))
        else if prefix ''http://'' s \<and> takeWhile url_char (drop 7 s) \<noteq> []
        then Some (''http://'' @ takeWhile url_char (drop 7 s))
        else None)
   \<and> (\<forall>u\<in>set (findall s). \<exists>run. (u = ''http://'' @ run \<or> u = ''https://'' @ run) \<and> run \<noteq> []
          \<and> (\<forall>c\<in>set run. url_char c))
   \<and> (\<exists>gaps rest. length gaps = length (findall s)
          \<and> s = concat (map2 (@) gaps (findall s)) @ rest)
   \<and> findall (c # cs) =
       (case match_here (c # cs) of
          Some m \<Rightarrow> m # findall (drop (length m) (c # cs))
        | None \<Rightarrow> findall cs)"
  using match_here_run[of s] findall_shape[of s] findall_in_order[of s] findall_scan[of c cs]
  by simp

theorem findall_urls_witness:
  "findall ''see http://a.b/c?x=1 and https://d.e'' = [''http://a.b/c?x=1'', ''https://d.e'']
   \<and> (\<exists>run. (''http://a.b/c?x=1'' = ''http://'' @ run \<or> ''http://a.b/c?x=1'' = ''https://'' @ run)
          \<and> run \<noteq> [] \<and> list_all url_char run)
   \<and> (\<exists>run. (''https://d.e'' = ''http://'' @ run \<or> ''https://d.e'' = ''https://'' @ run)
          \<and> run \<noteq> [] \<and> list_all url_char run)"
proof -
  have h: "findall ''see http://a.b/c?x=1 and https://d.e''
             = [''http://a.b/c?x=1'', ''https://d.e'']"
    by (simp add: eval_defs)
  note r = findall_urls[of "''see http://a.b/c?x=1 and https://d.e''" "CHR ''x''" "[]"]
  note b = conjunct1[OF conjunct2[OF conjunct2[OF r]], unfolded h Ball_set list.pred_inject]
  have a1: "\<exists>run. (''http://a.b/c?x=1'' = ''http://'' @ run
                  \<or> ''http://a.b/c?x=1'' = ''https://'' @ run)
          \<and> run \<noteq> [] \<and> list_all url_char run"
    by (rule conjunct1[OF b])
  have a2: "\<exists>run. (''https://d.e'' = ''http://'' @ run \<or> ''https://d.e'' = ''https://'' @ run)
          \<and> run \<noteq> [] \<and> list_all url_char run"
    by (rule conjunct1[OF conjunct2[OF b]])
  show ?thesis by (intro conjI h a1 a2)
qed

text \<open>
  With the symbols read one by one as the specification lists them, \<open>/\<close> is not among
  them and a URL would end before its path; the pattern of the source takes the path.
\<close>

theorem findall_urls_counterexample:
  "findall ''http://a.b/c'' = [''http://a.b/c''] \<and> \<not> claimed_url ''http://a.b/c''
   \<and> \<not> claimed_symbol CHR ''/''"
  by code_simp

section \<open>The content field is cut at 500 characters\<close>

text \<open>
  C8. For a content longer than 500 characters \<open>log_to_spreadsheet\<close> raises nothing, and
  when the sheet handle is there and the append succeeds, the sheet has exactly one row
  more, whose content field is the first 500 characters of the content and has length 500.
\<close>

theorem log_to_spreadsheet_truncates_content:
  assumes "500 < length content"
  shows "\<exists>st'. log_to_spreadsheet w mt content url summary sender st = (Inr (), st')
           \<and> (\<forall>rows. sheet st = Some rows
                   \<and> append_row w (length (calls st))
                        (build_row (clock w (length (calls st))) mt content url summary sender)
                      = None
                 \<longrightarrow> (\<exists>row. sheet st' = Some (rows @ [row])
                        \<and> row_content row = take 500 content
                        \<and> length (row_content row) = 500))"
proof -
  let ?row = "build_row (clock w (length (calls st))) mt content url summary sender"
  from returnsD[OF returns_log_to_spreadsheet, of w mt content url summary sender st]
  obtain st' where r: "log_to_spreadsheet w mt content url summary sender st = (Inr (), st')"
    by auto
  have "\<exists>row. sheet st' = Some (rows @ [row]) \<and> row_content row = take 500 content
                        \<and> length (row_content row) = 500"
    if sh: "sheet st = Some rows" and ok: "append_row w (length (calls st)) ?row = None" for rows
  proof -
    from log_to_spreadsheet_appends[OF sh ok] r have "sheet st' = Some (rows @ [?row])" by auto
    moreover have "row_content ?row = take 500 content" by (simp add: row_fields)
    moreover have "length (row_content ?row) = 500" using assms by (simp add: row_fields)
    ultimately show ?thesis by blast
  qed
  with r show ?thesis by blast
qed

theorem log_to_spreadsheet_truncates_content_witness:
  "500 < length (replicate 501 CHR ''x'')
   \<and> sheet init_state = Some []
   \<and> append_row offline_world (length (calls init_state))
        (build_row (clock offline_world (length (calls init_state))) ''Message''
           (replicate 501 CHR ''x'') None ''summary'' ''+1555'') = None
   \<and> (\<exists>st' row. log_to_spreadsheet offline_world ''Message'' (replicate 501 CHR ''x'') None
                    ''summary'' ''+1555'' init_state = (Inr (), st')
         \<and> sheet st' = Some ([] @ [row])
         \<and> row_content row = take 500 (replicate 501 CHR ''x'')
         \<and> length (row_content row) = 500)"
proof -
  have h: "500 < length (replicate 501 CHR ''x'')" by simp
  have h1: "sheet init_state = Some []" by (simp add: init_state_def)
  have h2: "append_row offline_world (length (calls init_state))
        (build_row (clock offline_world (length (calls init_state))) ''Message''
           (replicate 501 CHR ''x'') None ''summary'' ''+1555'') = None"
    by (simp add: offline_world_def)
  from log_to_spreadsheet_truncates_content[OF h, of offline_world "''Message''" None
      "''summary''" "''+1555''" init_state]
  obtain st' where a: "log_to_spreadsheet offline_world ''Message'' (replicate 501 CHR ''x'') None
                    ''summary'' ''+1555'' init_state = (Inr (), st')"
    and b: "\<forall>rows. sheet init_state = Some rows
                   \<and> append_row offline_world (length (calls init_state))
                        (build_row (clock offline_world (length (calls init_state))) ''Message''
                           (replicate 501 CHR ''x'') None ''summary'' ''+1555'') = None
                 \<longrightarrow> (\<exists>row. sheet st' = Some (rows @ [row])
                        \<and> row_content row = take 500 (replicate 501 CHR ''x'')
                        \<and> length (row_content row) = 500)" by blast
  from mp[OF spec[OF b, of "[]"] conjI[OF h1 h2]] obtain row where
    c: "sheet st' = Some ([] @ [row])" "row_content row = take 500 (replicate 501 CHR ''x'')"
      "length (row_content row) = 500" by blast
  have x: "\<exists>st' row. log_to_spreadsheet offline_world ''Message'' (replicate 501 CHR ''x'') None
                    ''summary'' ''+1555'' init_state = (Inr (), st')
         \<and> sheet st' = Some ([] @ [row])
         \<and> row_content row = take 500 (replicate 501 CHR ''x'')
         \<and> length (row_content row) = 500"
    by (rule exI[of _ st'], rule exI[of _ row]) (intro conjI a c)
  show ?thesis by (intro conjI h h1 h2 x)
qed

section \<open>A failing sheet does not stop the reply\<close>

text \<open>
  C9. When the sheet handle is missing or the append raises, \<open>log_to_spreadsheet\<close>
  returns without raising, leaves the sheet and the sent messages as they are and adds
  one ERROR line to the log; and \<open>process_message\<close> of either file returns its reply from
  every state and in every world.
\<close>

theorem log_to_spreadsheet_failure_is_logged:
  assumes "sheet st = None
           \<or> (\<exists>e. append_row w (length (calls st))
                    (build_row (clock w (length (calls st))) mt content url summary sender)
                  = Some e)"
  shows "(\<exists>st' msg. log_to_spreadsheet w mt content url summary sender st = (Inr (), st')
             \<and> sheet st' = sheet st \<and> sent st' = sent st
             \<and> logs st' = logs st @ [(ERROR, msg)])
       \<and> (\<exists>st'. app_process_message w body sender_number st =
             (Inr (if findall body \<noteq> []
                   then check_mark @ '' Logged '' @ str_nat (length (findall body))
                        @ '' link(s) to your spreadsheet!''
                   else check_mark @ '' Message logged to your spreadsheet!''), st'))
       \<and> (\<exists>st'. main_process_message w body sender_number st =
             (Inr (if findall body \<noteq> []
                   then check_mark @ '' Logged '' @ str_nat (length (findall body))
                        @ '' link(s) to your spreadsheet!''
                   else check_mark @ '' Message logged to your spreadsheet!''), st'))"
proof (intro conjI)
  show "\<exists>st' msg. log_to_spreadsheet w mt content url summary sender st = (Inr (), st')
             \<and> sheet st' = sheet st \<and> sent st' = sent st
             \<and> logs st' = logs st @ [(ERROR, msg)]"
    by (rule log_to_spreadsheet_fails[OF assms])
  show "\<exists>st'. app_process_message w body sender_number st =
             (Inr (if findall body \<noteq> []
                   then check_mark @ '' Logged '' @ str_nat (length (findall body))
                        @ '' link(s) to your spreadsheet!''
                   else check_mark @ '' Message logged to your spreadsheet!''), st')"
    unfolding app_process_message_def
    by (rule process_message_reply[where S = generate_summary_with_huggingface and w = w,
          OF returns_generate_summary_with_huggingface])
  show "\<exists>st'. main_process_message w body sender_number st =
             (Inr (if findall body \<noteq> []
                   then check_mark @ '' Logged '' @ str_nat (length (findall body))
                        @ '' link(s) to your spreadsheet!''
                   else check_mark @ '' Message logged to your spreadsheet!''), st')"
    unfolding main_process_message_def
    by (rule process_message_reply[where S = generate_summary_with_ollama and w = w,
          OF returns_generate_summary_with_ollama])
qed

theorem log_to_spreadsheet_failure_is_logged_witness:
  "sheet no_sheet_state = None
   \<and> (\<exists>st' msg. log_to_spreadsheet offline_world ''Message'' ''hello'' None ''hello'' ''+1555''
                    no_sheet_state = (Inr (), st')
         \<and> sheet st' = sheet no_sheet_state \<and> sent st' = sent no_sheet_state
         \<and> logs st' = logs no_sheet_state @ [(ERROR, msg)])
   \<and> (\<exists>e. append_row broken_sheet_world (length (calls init_state))
             (build_row (clock broken_sheet_world (length (calls init_state))) ''Message''
                ''hello'' None ''hello'' ''+1555'') = Some e)
   \<and> (\<exists>st' msg. log_to_spreadsheet broken_sheet_world ''Message'' ''hello'' None ''hello''
                    ''+1555'' init_state = (Inr (), st')
         \<and> sheet st' = sheet init_state \<and> sent st' = sent init_state
         \<and> logs st' = logs init_state @ [(ERROR, msg)])"
proof -
  have h1: "sheet no_sheet_state = None" by (simp add: no_sheet_state_def)
  have h2: "\<exists>e. append_row broken_sheet_world (length (calls init_state))
             (build_row (clock broken_sheet_world (length (calls init_state))) ''Message''
                ''hello'' None ''hello'' ''+1555'') = Some e"
    by (simp add: broken_sheet_world_def)
  note r1 = log_to_spreadsheet_failure_is_logged[OF disjI1[OF h1],
      of offline_world "''Message''" "''hello''" None "''hello''" "''+1555''" "''hello''" "''+1555''"]
  note r2 = log_to_spreadsheet_failure_is_logged[OF disjI2[OF h2], of "''hello''" "''+1555''"]
  show ?thesis by (intro conjI h1 h2 conjunct1[OF r1] conjunct1[OF r2])
qed

section \<open>A webhook call with an empty field\<close>

text \<open>
  C10. When the \<open>Body\<close> field or the \<open>From\<close> field of the form is missing or empty, the
  handler of either file returns status 200 with \<open>{"status": "success"}\<close> and leaves the
  state as it is: no row, no message sent, no request made.
\<close>

theorem webhook_skips_empty_fields:
  assumes "form ''Body'' = None \<or> form ''Body'' = Some '''' \<or> form ''From'' = None
           \<or> form ''From'' = Some ''''"
  shows "app_webhook w form st = (Inr ([(''status'', ''success'')], 200), st)
       \<and> main_webhook w form st = (Inr ([(''status'', ''success'')], 200), st)"
proof -
  have "form_get form ''Body'' '''' = [] \<or> str_remove ''whatsapp:'' (form_get form ''From'' '''') = []"
    using assms by (auto simp: form_get_def)
  then have "webhook process w form st = (Inr ([(''status'', ''success'')], 200), st)" for process
    by (auto simp: webhook_def try_except_def bind_def ret_def)
  then show ?thesis by (simp add: app_webhook_def main_webhook_def)
qed

theorem webhook_skips_empty_fields_witness:
  "[''From'' \<mapsto> ''whatsapp:+1555''] ''Body'' = None
   \<and> app_webhook offline_world [''From'' \<mapsto> ''whatsapp:+1555''] init_state
       = (Inr ([(''status'', ''success'')], 200), init_state)
   \<and> main_webhook offline_world [''From'' \<mapsto> ''whatsapp:+1555''] init_state
       = (Inr ([(''status'', ''success'')], 200), init_state)"
proof -
  have h: "[''From'' \<mapsto> ''whatsapp:+1555''] ''Body'' = None" by simp
  note r = webhook_skips_empty_fields[where form = "[''From'' \<mapsto> ''whatsapp:+1555'']"
      and w = offline_world and st = init_state, OF disjI1[OF h]]
  show ?thesis by (intro conjI h conjunct1[OF r] conjunct2[OF r])
qed

end
